theory Spec2Isabelle
  imports Main
begin

section \<open>jester: a shallow embedding of \<open>bin/jester.js\<close>\<close>

text \<open>
  The program discovers test modules below a list of directories, runs every assertion
  of every module, optionally brackets the run with precise coverage, and reports per
  module. Everything the program does besides computing values is made explicit here:
  calls of the logger, of the hooks and of the host (file system, profiler) are events
  of a trace, every \<open>throw\<close>, rejected promise and \<open>process.exit\<close> is a branch, and
  what the host answers (directory listings, stat and import outcomes, what an assertion
  function does when called) is an input of the model.

  Three things are fixed from outside the program. Paths are POSIX paths. The operations
  of the logger and the hooks of a module return to their caller. And a promise that is
  rejected while nothing handles it simply stays rejected: whether the host then prints
  a warning or ends the process is its own policy, and the model says where such a
  rejection arises rather than what the host makes of it.
\<close>

subsection \<open>Errors, events and the data model\<close>

text \<open>
  A thrown value carries its class and its text. \<open>err instanceof AssertionError\<close> only
  looks at the class (a subclass of \<open>AssertionError\<close> counts as the class itself).
\<close>

datatype error_class = AssertionError | TypeError | ReferenceError | SystemError | PlainError

datatype error = Thrown error_class string

fun error_class_of :: "error \<Rightarrow> error_class" where
  "error_class_of (Thrown c s) = c"

fun error_text :: "error \<Rightarrow> string" where
  "error_text (Thrown c s) = s"

definition instanceof_AssertionError :: "error \<Rightarrow> bool" where
  "instanceof_AssertionError e = (error_class_of e = AssertionError)"

text \<open>
  What \<open>logger.Error\<close> is given: a caught error object, or a string built by the program.
\<close>

datatype logged = Caught error | Text string

text \<open>
  The events: the six operations of the consumed logger, the calls of a module's hooks
  and assertion functions, and the calls to the host. \<open>Unlink\<close> and \<open>WriteFile\<close> say
  whether the host carried the call out. The elapsed time handed to
  \<open>WriteTestingSummary\<close> is a wall-clock difference and is left out of the event.
\<close>

datatype event =
    Debug string
  | Error logged
  | WriteModuleHead string
  | WriteAssertionResult bool string bool
  | WriteModuleSummary string nat nat
  | WriteTestingSummary nat nat
  | SetUp string
  | TearDown string
  | Invoke string string
  | Readdir string
  | Stat string
  | Import string
  | Connect
  | Disconnect
  | Post string
  | Unlink string bool
  | WriteFile string string bool

text \<open>
  A hook (\<open>setUp\<close>, \<open>tearDown\<close>) is the function a module exports under that name, or the
  default \<open>() => {}\<close> that discovery fills in. The program calls a hook for its effect
  only; the model records the call. Hooks, like the operations of the logger, are taken
  to return.
\<close>

datatype hook = Exported | NoOp

text \<open>
  What the \<open>function\<close> field of an assertion definition does when the executor evaluates
  \<open>await def.function()\<close>:
  \<^item> \<open>NotCallable\<close>: the field holds no function (it is absent, or holds some other
    value), the call itself throws a \<open>TypeError\<close>;
  \<^item> \<open>Throws e\<close>: a plain function that throws \<open>e\<close> before returning;
  \<^item> \<open>Settles n c\<close>: the function returns; the awaited value settles \<open>n\<close> ticks later,
    fulfilled (\<open>Completes\<close>, which covers a plain return value) or rejected (\<open>Fails e\<close>);
  \<^item> \<open>Never\<close>: the function returns a promise that never settles.
\<close>

datatype completion = Completes | Fails error

datatype behaviour = NotCallable | Throws error | Settles nat completion | Never

record AssertionDef =
  function' :: behaviour
  skip :: bool

text \<open>
  The value an \<open>assertions\<close> object holds under an id. Nothing checks it before the
  executor reads it, so it need not be a definition: \<open>null\<close> and \<open>undefined\<close> have no
  property that could be read (\<open>Nullish\<close>); of any other value the executor reads the two
  fields, \<open>skip\<close> for its truth value (an absent field is falsy) and \<open>function\<close> to call it.
\<close>

datatype assertion = Nullish | Defined AssertionDef

text \<open>
  The assertions of a module are listed in the order in which \<open>for (id in assertions)\<close>
  enumerates them; the keys of an object are distinct, so \<open>assertions[id]\<close> is the entry
  the loop is at.
\<close>

record TestModule =
  id' :: string
  assertions :: "(string \<times> assertion) list"
  setUp :: hook
  tearDown :: hook

record AssertionResult =
  testModuleId :: string
  assertionId :: string
  result :: bool
  skipped :: bool

text \<open>
  The fields of the configuration object that \<open>jester.js\<close> reads. The class \<open>Configure\<close>
  itself lives in \<open>lib/configure.js\<close>; the program only consumes its fields, so a
  configuration is an input here. Its logger is the event trace.
\<close>

record Configure =
  exitAfter :: bool
  exitCode :: int
  testDirs :: "string list"
  excludeDirs :: "string list"
  coverageEnabled :: bool
  coverageDir :: string
  clearCoverage :: bool
  dryRun :: bool

subsection \<open>\<open>RunTests\<close>: one concurrent unit per assertion\<close>

text \<open>
  A promise is pending, fulfilled with a value, or rejected with an error; the first of
  \<open>resolve\<close> and \<open>reject\<close> to be called decides, later calls do nothing.
\<close>

datatype 'a promise = Pending | Fulfilled 'a | Rejected error

text \<open>
  One unit of work is the body \<open>new Promise(async (resolve, reject) => { ... })\<close>. It is
  sequential code, so its own events are a list; \<open>at\<close> is the tick at which the unit
  calls \<open>reject\<close> or \<open>resolve\<close> (tick 0 is the launch loop itself). Units are launched
  without waiting for each other, so the events of different units interleave in an order
  the program does not fix: the model keeps one list per unit, which is what the unit
  does once its call has settled. (A unit whose call is still outstanding when \<open>jester\<close>
  ends the process after a rejection is cut off with the process.)
\<close>

record unit_run =
  events :: "event list"
  at :: nat
  promise :: "AssertionResult promise"

text \<open>
  \<open>await def.function()\<close>: the events of the call, the tick at which control comes back
  to the unit, and how. A call that never settles never gives control back.
\<close>

datatype resumption = Normal | Abrupt error | Stuck

fun await_function :: "string \<Rightarrow> string \<Rightarrow> behaviour \<Rightarrow> event list \<times> nat \<times> resumption" where
  "await_function mid aid NotCallable =
     ([], 0, Abrupt (Thrown TypeError
        ''eachTestModule.assertions[eachAssertionId].function is not a function''))"
| "await_function mid aid (Throws e) = ([Invoke mid aid], 0, Abrupt e)"
| "await_function mid aid (Settles n Completes) = ([Invoke mid aid], Suc n, Normal)"
| "await_function mid aid (Settles n (Fails e)) = ([Invoke mid aid], Suc n, Abrupt e)"
| "await_function mid aid Never = ([Invoke mid aid], 0, Stuck)"

text \<open>
  The end of the unit: \<open>eachTestModule.tearDown()\<close>, then \<open>resolve({...})\<close>. When \<open>reject\<close>
  was called before, the promise is already rejected and \<open>resolve\<close> changes nothing.
\<close>

definition tearDown_and_resolve ::
  "TestModule \<Rightarrow> string \<Rightarrow> bool \<Rightarrow> bool \<Rightarrow> error option \<Rightarrow> event list \<Rightarrow> nat \<Rightarrow> unit_run" where
  "tearDown_and_resolve m aid res skp rejected evs t =
     \<lparr>events = evs @ [TearDown (id' m)],
      at = t,
      promise =
        (case rejected of
           Some e \<Rightarrow> Rejected e
         | None \<Rightarrow>
             Fulfilled \<lparr>testModuleId = id' m, assertionId = aid,
                        result = res, skipped = skp\<rparr>)\<rparr>"

text \<open>
  \<open>config.dryRun || assertions[id].skip || false\<close>, evaluated before the \<open>try\<close>. With
  \<open>dryRun\<close> set, \<open>||\<close> does not evaluate its right operand and the entry is not read.
  Otherwise \<open>.skip\<close> is read: of \<open>null\<close> or \<open>undefined\<close> that throws a \<open>TypeError\<close>, and
  the flag has no value (\<open>None\<close>).
\<close>

fun skipped_flag :: "bool \<Rightarrow> assertion \<Rightarrow> bool option" where
  "skipped_flag True a = Some True"
| "skipped_flag False Nullish = None"
| "skipped_flag False (Defined d) = Some (skip d \<or> False)"

text \<open>
  What the call \<open>assertions[id].function()\<close> inside the \<open>try\<close> does. The executor gets
  there only with a flag that is false, which was read from a definition; for \<open>null\<close>
  and \<open>undefined\<close> the expression would throw a \<open>TypeError\<close> too.
\<close>

fun function_field :: "assertion \<Rightarrow> behaviour" where
  "function_field (Defined d) = function' d"
| "function_field Nullish = NotCallable"

text \<open>
  The unit, statement by statement: \<open>setUp\<close>, the \<open>skipped\<close> flag, the initial \<open>result\<close>,
  the guarded call with its \<open>catch\<close> clause, \<open>tearDown\<close>, \<open>resolve\<close>. While the call has
  not settled the unit does not go on, and its promise is pending.

  When the \<open>skipped\<close> flag cannot be computed, the \<open>TypeError\<close> is thrown outside the \<open>try\<close>
  and leaves the \<open>async\<close> executor: it rejects the promise which that function returns
  and which nothing reads. Neither \<open>resolve\<close> nor \<open>reject\<close> has been called, and nothing
  is left that could call them: the promise of the unit stays pending, with \<open>setUp\<close> the
  only call made.
\<close>

definition RunUnit :: "Configure \<Rightarrow> TestModule \<Rightarrow> string \<Rightarrow> assertion \<Rightarrow> unit_run" where
  "RunUnit config m aid a =
     (case skipped_flag (dryRun config) a of
        None \<Rightarrow> \<lparr>events = [SetUp (id' m)], at = 0, promise = Pending\<rparr>
      | Some skp \<Rightarrow>
          (let res = (skp \<or> True)
           in if \<not> skp then
                (case await_function (id' m) aid (function_field a) of
                   (evs, t, Stuck) \<Rightarrow>
                     \<lparr>events = SetUp (id' m) # evs, at = t, promise = Pending\<rparr>
                 | (evs, t, Normal) \<Rightarrow>
                     tearDown_and_resolve m aid res skp None (SetUp (id' m) # evs) t
                 | (evs, t, Abrupt err) \<Rightarrow>
                     if instanceof_AssertionError err then
                       tearDown_and_resolve m aid False skp None
                         (SetUp (id' m) # evs @ [Error (Caught err)]) t
                     else
                       tearDown_and_resolve m aid res skp (Some err) (SetUp (id' m) # evs) t)
              else tearDown_and_resolve m aid res skp None [SetUp (id' m)] 0))"

text \<open>
  The two nested loops of \<open>RunTests\<close> launch one unit per module and assertion, in order.
\<close>

definition launches :: "TestModule list \<Rightarrow> (TestModule \<times> string \<times> assertion) list" where
  "launches ms = concat (map (\<lambda>m. map (\<lambda>(aid, a). (m, aid, a)) (assertions m)) ms)"

text \<open>
  \<open>Promise.all\<close>: rejected as soon as one input is rejected, with the reason of the input
  that rejected first (of two rejected at the same tick, the one launched first);
  fulfilled with the values in input order once every input is fulfilled; pending
  otherwise.
\<close>

fun first_rejection :: "unit_run list \<Rightarrow> (nat \<times> error) option" where
  "first_rejection [] = None"
| "first_rejection (u # us) =
     (case promise u of
        Rejected e \<Rightarrow>
          (case first_rejection us of
             None \<Rightarrow> Some (at u, e)
           | Some (t, e') \<Rightarrow> if t < at u then Some (t, e') else Some (at u, e))
      | _ \<Rightarrow> first_rejection us)"

fun fulfilled_values :: "unit_run list \<Rightarrow> AssertionResult list option" where
  "fulfilled_values [] = Some []"
| "fulfilled_values (u # us) =
     (case promise u of
        Fulfilled r \<Rightarrow> map_option ((#) r) (fulfilled_values us)
      | _ \<Rightarrow> None)"

definition Promise_all :: "unit_run list \<Rightarrow> AssertionResult list promise" where
  "Promise_all us =
     (case first_rejection us of
        Some (t, e) \<Rightarrow> Rejected e
      | None \<Rightarrow> (case fulfilled_values us of Some rs \<Rightarrow> Fulfilled rs | None \<Rightarrow> Pending))"

record test_run =
  units :: "unit_run list"
  outcome :: "AssertionResult list promise"

definition RunTests :: "TestModule list \<Rightarrow> Configure \<Rightarrow> test_run" where
  "RunTests testModules config =
     (let us = map (\<lambda>(m, aid, a). RunUnit config m aid a) (launches testModules)
      in \<lparr>units = us, outcome = Promise_all us\<rparr>)"

subsection \<open>Paths and strings\<close>

text \<open>
  \<open>String.prototype.split\<close> with a one-character separator, and \<open>Array.prototype.join\<close>.
\<close>

fun split_on :: "char \<Rightarrow> string \<Rightarrow> string list" where
  "split_on c [] = [[]]"
| "split_on c (x # xs) =
     (if x = c then [] # split_on c xs
      else (case split_on c xs of s # ss \<Rightarrow> (x # s) # ss | [] \<Rightarrow> [[x]]))"

fun join_with :: "string \<Rightarrow> string list \<Rightarrow> string" where
  "join_with sep [] = []"
| "join_with sep [s] = s"
| "join_with sep (s # t # ss) = s @ sep @ join_with sep (t # ss)"

text \<open>
  \<open>path.join\<close> of two arguments, as Node's POSIX implementation computes it: the
  non-empty arguments are joined with \<open>/\<close> and the result is normalised (empty and \<open>.\<close>
  segments dropped, \<open>..\<close> resolved against the segment before it).
\<close>

definition pathSep :: string where
  "pathSep = ''/''"

fun normalizeString :: "bool \<Rightarrow> string list \<Rightarrow> string list \<Rightarrow> string list" where
  "normalizeString allowAboveRoot [] res = rev res"
| "normalizeString allowAboveRoot (s # ss) res =
     (if s = [] \<or> s = ''.'' then normalizeString allowAboveRoot ss res
      else if s = ''..'' then
        (case res of
           r # rs \<Rightarrow>
             if r = ''..'' then
               normalizeString allowAboveRoot ss (if allowAboveRoot then ''..'' # res else res)
             else normalizeString allowAboveRoot ss rs
         | [] \<Rightarrow> normalizeString allowAboveRoot ss (if allowAboveRoot then [''..''] else []))
      else normalizeString allowAboveRoot ss (s # res))"

definition normalize :: "string \<Rightarrow> string" where
  "normalize p =
     (if p = [] then ''.''
      else
        (let isAbsolute = (hd p = CHR ''/'');
             trailingSeparator = (last p = CHR ''/'');
             q = join_with ''/'' (normalizeString (\<not> isAbsolute) (split_on CHR ''/'' p) [])
         in if q = [] then (if isAbsolute then ''/'' else if trailingSeparator then ''./'' else ''.'')
            else (if isAbsolute then ''/'' else []) @ q @ (if trailingSeparator then ''/'' else [])))"

definition join :: "string \<Rightarrow> string \<Rightarrow> string" where
  "join a b =
     (let joined = join_with ''/'' (filter (\<lambda>s. s \<noteq> []) [a, b])
      in if joined = [] then ''.'' else normalize joined)"

text \<open>
  The specifier handed to \<open>import\<close>: \<open>fullPath.replace(/\\/g, '/').replace(/c:/gi, '')\<close>.
\<close>

fun remove_drive :: "string \<Rightarrow> string" where
  "remove_drive (a # b # s) =
     (if (a = CHR ''c'' \<or> a = CHR ''C'') \<and> b = CHR '':'' then remove_drive s
      else a # remove_drive (b # s))"
| "remove_drive s = s"

definition import_specifier :: "string \<Rightarrow> string" where
  "import_specifier fullPath =
     remove_drive (map (\<lambda>c. if c = CHR 0x5C then CHR ''/'' else c) fullPath)"

text \<open>Decimal digits, for \<open>Date.now()\<close> in a file name and for integer-like property keys.\<close>

definition digit_char :: "nat \<Rightarrow> char" where
  "digit_char d = ''0123456789'' ! d"

fun string_of_nat :: "nat \<Rightarrow> string" where
  "string_of_nat n = (if 9 < n then string_of_nat (n div 10) else []) @ [digit_char (n mod 10)]"

definition is_digit :: "char \<Rightarrow> bool" where
  "is_digit c = (48 \<le> (of_char c :: nat) \<and> (of_char c :: nat) \<le> 57)"

definition nat_of_string :: "string \<Rightarrow> nat" where
  "nat_of_string s = foldl (\<lambda>n c. 10 * n + ((of_char c :: nat) - 48)) 0 s"

subsection \<open>Discovery\<close>

text \<open>
  What \<open>import(specifier)\<close> yields for a file: a rejection, or a module namespace object,
  of which the program reads four exports. An export is \<open>None\<close> (for the hooks:
  \<open>False\<close>) when the program finds it falsy (absent, \<open>undefined\<close>, \<open>null\<close>); an
  \<open>assertions\<close> object is listed in the order \<open>for ... in\<close> enumerates it, may be empty,
  and may hold any value under an id.
\<close>

record exports =
  exported_assertions :: "(string \<times> assertion) list option"
  exported_id :: "string option"
  exported_setUp :: bool
  exported_tearDown :: bool

datatype load = LoadFails error | Loaded exports

text \<open>
  The file system below a directory, as the walk meets it: \<open>stat\<close> of an entry fails, or
  says directory, or says anything else; \<open>readdir\<close> of a directory fails or lists entries.
\<close>

datatype node = File load | Directory listing | Unstatable error
and listing = Unreadable error | Entries "(string \<times> node) list"

record walk_state =
  testModules :: "TestModule list"
  trace :: "event list"

definition emit :: "event list \<Rightarrow> walk_state \<Rightarrow> walk_state" where
  "emit evs st = st\<lparr>trace := trace st @ evs\<rparr>"

text \<open>
  \<open>GetEntries\<close> and \<open>GetEntryStats\<close> return the promise they build. Their \<open>try\<close> block
  only constructs that promise: a failing \<open>readdir\<close> or \<open>stat\<close> rejects it later, through
  the callback, and no exception reaches the \<open>catch\<close> clause (the \<open>Promise\<close> constructor
  turns even a synchronous throw of the executor into a rejection). So the \<open>catch\<close>
  clauses, which would log and answer \<open>[]\<close> or \<open>null\<close>, are dead code, and the caller's
  \<open>await\<close> throws the error.
\<close>

definition GetEntries :: "string \<Rightarrow> listing \<Rightarrow> event list \<times> (error + (string \<times> node) list)" where
  "GetEntries dir l =
     ([Debug (''Looking in: '' @ dir), Readdir dir],
      (case l of Unreadable err \<Rightarrow> Inl err | Entries entries \<Rightarrow> Inr entries))"

datatype stats = IsDirectory listing | NotDirectory load

definition GetEntryStats :: "string \<Rightarrow> node \<Rightarrow> event list \<times> (error + stats)" where
  "GetEntryStats path' nd =
     ([Stat path'],
      (case nd of
         Unstatable err \<Rightarrow> Inl err
       | Directory l \<Rightarrow> Inr (IsDirectory l)
       | File ld \<Rightarrow> Inr (NotDirectory ld)))"

text \<open>
  The three default fills of an accepted module; a falsy \<open>id\<close> includes the empty string.
\<close>

definition fill_defaults :: "string \<Rightarrow> exports \<Rightarrow> (string \<times> assertion) list \<Rightarrow> TestModule" where
  "fill_defaults eachEntry x asserts =
     \<lparr>id' = (case exported_id x of None \<Rightarrow> eachEntry | Some i \<Rightarrow> if i = [] then eachEntry else i),
      assertions = asserts,
      setUp = (if exported_setUp x then Exported else NoOp),
      tearDown = (if exported_tearDown x then Exported else NoOp)\<rparr>"

text \<open>
  The branch of the loop body for an entry that is not a directory and whose name ends
  in \<open>.js\<close>: import it; a failed import is logged and the loop goes on; a loaded record is
  pushed when \<open>module['assertions']\<close> is truthy, and dropped without a word otherwise.
\<close>

definition import_entry :: "string \<Rightarrow> string \<Rightarrow> load \<Rightarrow> walk_state \<Rightarrow> walk_state" where
  "import_entry eachEntry fullPath ld st =
     (let st1 = emit [Debug (''Found file: '' @ fullPath), Import (import_specifier fullPath)] st
      in case ld of
           LoadFails err \<Rightarrow>
             emit [Error (Text (''Error importing: '' @ fullPath @ '': '' @ error_text err)),
                   Error (Text ''Skipping...'')] st1
         | Loaded x \<Rightarrow>
             (case exported_assertions x of
                None \<Rightarrow> st1
              | Some asserts \<Rightarrow>
                  (let m = fill_defaults eachEntry x asserts;
                       st2 = emit [Debug (''Found module: '' @ id' m)] st1
                   in st2\<lparr>testModules := testModules st2 @ [m]\<rparr>)))"

text \<open>
  \<open>await Promise.all(functionFinished)\<close> over the recursive calls: the first rejection.
\<close>

fun all_finished :: "error option list \<Rightarrow> error option" where
  "all_finished [] = None"
| "all_finished (Some err # rs) = Some err"
| "all_finished (None # rs) = all_finished rs"

text \<open>
  \<open>FindTestModules\<close>. The result is the rejection of the call, if any, and the state it
  leaves: the shared list \<open>testModules\<close> and the trace. The recursive call for a
  subdirectory is started inside a promise that is awaited only after the loop; in which
  order the walks of sibling subdirectories and the rest of the loop take their turns is
  up to the host. The model takes the schedule in which a subdirectory's walk is done
  before the loop examines the next entry; the rejection of a walk is kept in
  \<open>functionFinished\<close> and surfaces at the final \<open>Promise.all\<close>, as in the source. (Until
  then nothing handles that rejection; a host that ends the process on an unhandled
  rejection gets there first. Either way the walk does not complete.)
\<close>

function FindTestModules :: "string \<Rightarrow> string list \<Rightarrow> listing \<Rightarrow> walk_state \<Rightarrow> error option \<times> walk_state"
  and for_entries ::
    "string \<Rightarrow> string list \<Rightarrow> (string \<times> node) list \<Rightarrow> error option list \<Rightarrow> walk_state \<Rightarrow>
     error option \<times> walk_state" where
  "FindTestModules dir excl l st =
     (case GetEntries dir l of
        (evs, Inl err) \<Rightarrow> (Some err, emit evs st)
      | (evs, Inr entries) \<Rightarrow> for_entries dir excl entries [] (emit evs st))"
| "for_entries dir excl [] functionFinished st = (all_finished functionFinished, st)"
| "for_entries dir excl ((eachEntry, nd) # rest) functionFinished st =
     (let fullPath = join dir eachEntry
      in case GetEntryStats fullPath nd of
           (evs, Inl err) \<Rightarrow> (Some err, emit evs st)
         | (evs, Inr (IsDirectory l)) \<Rightarrow>
             if fullPath \<in> set excl then
               for_entries dir excl rest functionFinished
                 (emit (evs @ [Debug (fullPath @ '' is excluded. Skipping...'')]) st)
             else
               (case FindTestModules fullPath excl l (emit evs st) of
                  (r, st') \<Rightarrow> for_entries dir excl rest (functionFinished @ [r]) st')
         | (evs, Inr (NotDirectory ld)) \<Rightarrow>
             if last (split_on CHR ''.'' eachEntry) = ''js'' then
               for_entries dir excl rest functionFinished
                 (import_entry eachEntry fullPath ld (emit evs st))
             else for_entries dir excl rest functionFinished (emit evs st))"
  by pat_completeness auto
termination
  by (relation "measure (\<lambda>x. case x of
          Inl (dir, excl, l, st) \<Rightarrow> size l
        | Inr (dir, excl, entries, ff, st) \<Rightarrow> size_list (size_prod (\<lambda>x. 0) size) entries)")
     (auto simp: GetEntries_def GetEntryStats_def split: listing.splits node.splits)

text \<open>
  A directory tree with every excluded directory entry emptied: what is left of a tree
  when all that lies below an excluded directory entry is forgotten. Like the walk, it
  compares the joined path of an entry with \<open>excludeDirs\<close> and does not test the root.
\<close>

fun prune :: "string \<Rightarrow> string list \<Rightarrow> listing \<Rightarrow> listing"
  and prune_entries :: "string \<Rightarrow> string list \<Rightarrow> (string \<times> node) list \<Rightarrow> (string \<times> node) list" where
  "prune dir excl (Unreadable err) = Unreadable err"
| "prune dir excl (Entries entries) = Entries (prune_entries dir excl entries)"
| "prune_entries dir excl [] = []"
| "prune_entries dir excl ((eachEntry, Directory l) # rest) =
     (eachEntry,
      Directory (if join dir eachEntry \<in> set excl then Entries []
                 else prune (join dir eachEntry) excl l)) #
     prune_entries dir excl rest"
| "prune_entries dir excl ((eachEntry, File ld) # rest) =
     (eachEntry, File ld) # prune_entries dir excl rest"
| "prune_entries dir excl ((eachEntry, Unstatable err) # rest) =
     (eachEntry, Unstatable err) # prune_entries dir excl rest"

text \<open>
  The loop of \<open>jester\<close> over \<open>config.testDirs\<close>: one awaited walk per root directory, all
  sharing \<open>testModules\<close>; the first rejected walk ends the loop.
\<close>

fun discover ::
  "(string \<Rightarrow> listing) \<Rightarrow> string \<Rightarrow> string list \<Rightarrow> string list \<Rightarrow> walk_state \<Rightarrow>
   error option \<times> walk_state" where
  "discover fs wd excl [] st = (None, st)"
| "discover fs wd excl (eachDirectory # dirs) st =
     (case FindTestModules (join wd eachDirectory) excl
             (fs (join wd eachDirectory)) st of
        (Some err, st') \<Rightarrow> (Some err, st')
      | (None, st') \<Rightarrow> discover fs wd excl dirs st')"

subsection \<open>Aggregation\<close>

text \<open>
  \<open>moduleResults\<close> is a plain object used as a dictionary. The model keeps its own
  enumerable properties in creation order. Two keys do not behave like dictionary keys:
  \<^item> \<open>moduleResults.hasOwnProperty\<close> is looked up on the object first, so once a module id
    \<open>hasOwnProperty\<close> has made an own property of that name (an object, not a function),
    the next \<open>moduleResults.hasOwnProperty(...)\<close> throws a \<open>TypeError\<close>;
  \<^item> \<open>moduleResults['__proto__'] = v\<close> runs the setter inherited from \<open>Object.prototype\<close>:
    it replaces the prototype and creates no own property, so \<open>hasOwnProperty\<close> stays
    false for that id, every result with it is pushed on a fresh prototype object, and
    \<open>Object.entries\<close> never lists it.
\<close>

type_synonym properties = "(string \<times> AssertionResult list) list"

definition hasOwnProperty :: "properties \<Rightarrow> string \<Rightarrow> bool" where
  "hasOwnProperty obj k = (k \<in> set (map fst obj))"

definition assign_empty :: "properties \<Rightarrow> string \<Rightarrow> properties" where
  "assign_empty obj k = (if k = ''__proto__'' then obj else obj @ [(k, [])])"

definition push_result :: "properties \<Rightarrow> string \<Rightarrow> AssertionResult \<Rightarrow> properties" where
  "push_result obj k r = map (\<lambda>(k', rs). if k' = k then (k', rs @ [r]) else (k', rs)) obj"

fun group_results :: "AssertionResult list \<Rightarrow> properties \<Rightarrow> error + properties" where
  "group_results [] moduleResults = Inr moduleResults"
| "group_results (eachAssertionResult # rest) moduleResults =
     (if hasOwnProperty moduleResults ''hasOwnProperty'' then
        Inl (Thrown TypeError ''moduleResults.hasOwnProperty is not a function'')
      else
        (let k = testModuleId eachAssertionResult;
             obj = (if \<not> hasOwnProperty moduleResults k then assign_empty moduleResults k
                    else moduleResults)
         in group_results rest (push_result obj k eachAssertionResult)))"

text \<open>
  \<open>Object.entries\<close> lists the own properties whose key is an array index (a canonical
  decimal numeral below \<open>2^32 - 1\<close>) first, in ascending numeric order, then the other
  string keys in creation order.
\<close>

definition is_array_index :: "string \<Rightarrow> bool" where
  "is_array_index k =
     (k \<noteq> [] \<and> list_all is_digit k \<and> (length k = 1 \<or> hd k \<noteq> CHR ''0'') \<and>
      length k \<le> 10 \<and> nat_of_string k < 4294967295)"

definition Object_entries :: "properties \<Rightarrow> properties" where
  "Object_entries obj =
     sort_key (\<lambda>p. nat_of_string (fst p)) (filter (\<lambda>p. is_array_index (fst p)) obj) @
     filter (\<lambda>p. \<not> is_array_index (fst p)) obj"

text \<open>
  The reporting loop: per module the head, one line per assertion, the summary; a module
  counts as failed when at least one of its results is false.
\<close>

definition failedAssertions :: "AssertionResult list \<Rightarrow> nat" where
  "failedAssertions rs = length (filter (\<lambda>r. \<not> result r) rs)"

fun report_modules :: "properties \<Rightarrow> nat \<Rightarrow> event list \<Rightarrow> nat \<times> event list" where
  "report_modules [] failedModules evs = (failedModules, evs)"
| "report_modules ((mid, rs) # rest) failedModules evs =
     report_modules rest
       (if failedAssertions rs > 0 then failedModules + 1 else failedModules)
       (evs @ [WriteModuleHead mid] @
        map (\<lambda>r. WriteAssertionResult (result r) (assertionId r) (skipped r)) rs @
        [WriteModuleSummary mid (length rs) (failedAssertions rs)])"

text \<open>
  The whole aggregation of \<open>jester\<close>: the failed-module count and the report, or the
  error thrown while grouping.
\<close>

definition aggregate :: "AssertionResult list \<Rightarrow> error + (nat \<times> event list)" where
  "aggregate assertionResults =
     (case group_results assertionResults [] of
        Inl err \<Rightarrow> Inl err
      | Inr moduleResults \<Rightarrow> Inr (report_modules (Object_entries moduleResults) 0 []))"

subsection \<open>Coverage\<close>

text \<open>
  What the host answers during one run: the file system below the test directories, the
  three requests on the profiler session, the clock, and the coverage directory (what
  \<open>readdir\<close> lists when the clear operation reads it, which deletions fail, whether the
  write fails). \<open>ClearCoverageDirectory\<close> uses an identifier \<open>logger\<close> that it is not
  passed and that \<open>jester.js\<close> neither declares nor imports: the name can only refer to
  a global, and evaluating it throws a \<open>ReferenceError\<close> unless the environment provides
  one (\<open>logger_is_global\<close>). Nothing in \<open>jester.js\<close> creates such a global, so the hosts
  of the examples below have none.
\<close>

record host =
  cwd :: string
  readdir_of :: "string \<Rightarrow> listing"
  post_enable :: "error option"
  post_startPreciseCoverage :: "error option"
  post_takePreciseCoverage :: "error + string"
  now :: nat
  coverage_entries :: "error + string list"
  unlink_error :: "string \<Rightarrow> error option"
  writeFile_error :: "error option"
  logger_is_global :: bool

definition StartCoverage :: "host \<Rightarrow> error option \<times> event list" where
  "StartCoverage h =
     (case post_enable h of
        Some err \<Rightarrow> (Some err, [Post ''Profiler.enable''])
      | None \<Rightarrow>
          (post_startPreciseCoverage h,
           [Post ''Profiler.enable'', Post ''Profiler.startPreciseCoverage'']))"

text \<open>
  The loop of \<open>ClearCoverageDirectory\<close>: the sentinel \<open>.gitignore\<close> is passed over; for any
  other entry \<open>logger.Debug\<close> is evaluated first (a \<open>ReferenceError\<close> when \<open>logger\<close> is
  unbound), then the entry is unlinked; the first failing \<open>unlink\<close> is logged and ends
  the function.
\<close>

fun clear_entries :: "host \<Rightarrow> string \<Rightarrow> string list \<Rightarrow> error option \<times> event list" where
  "clear_entries h covDir [] = (None, [])"
| "clear_entries h covDir (eachEntry # rest) =
     (if eachEntry = ''.gitignore'' then clear_entries h covDir rest
      else
        (let coverageFile = join covDir eachEntry
         in if \<not> logger_is_global h then
              (Some (Thrown ReferenceError ''logger is not defined''), [])
            else
              (case unlink_error h coverageFile of
                 Some err \<Rightarrow>
                   (None, [Debug (''Removing '' @ coverageFile), Unlink coverageFile False,
                           Error (Caught err)])
               | None \<Rightarrow>
                   (case clear_entries h covDir rest of
                      (r, evs) \<Rightarrow>
                        (r, Debug (''Removing '' @ coverageFile) # Unlink coverageFile True # evs)))))"

definition ClearCoverageDirectory :: "host \<Rightarrow> string \<Rightarrow> error option \<times> event list" where
  "ClearCoverageDirectory h covDir =
     (case coverage_entries h of
        Inl err \<Rightarrow>
          if logger_is_global h then (None, [Readdir covDir, Error (Caught err)])
          else (Some (Thrown ReferenceError ''logger is not defined''), [Readdir covDir])
      | Inr entries \<Rightarrow>
          (case clear_entries h covDir entries of
             (r, evs) \<Rightarrow> (r, Readdir covDir # evs)))"

text \<open>
  \<open>WriteCoverageResults\<close>: its own events, and the clear operation it starts without
  awaiting it. The promise of the clear operation is dropped, so its events run beside
  the rest of the program and its rejection, if any, is handled nowhere; what the host
  does about an unhandled rejection is not part of the model.
\<close>

record coverage_write =
  written :: "event list"
  cleared :: "(error option \<times> event list) option"

definition WriteCoverageResults :: "host \<Rightarrow> string \<Rightarrow> bool \<Rightarrow> coverage_write" where
  "WriteCoverageResults h covDir clearCov =
     (case post_takePreciseCoverage h of
        Inl err \<Rightarrow>
          \<lparr>written = [Post ''Profiler.takePreciseCoverage'', Error (Caught err)], cleared = None\<rparr>
      | Inr data \<Rightarrow>
          (let coverageFile =
                 covDir @ pathSep @ ''coverage-'' @ string_of_nat (now h) @ ''.json''
           in \<lparr>written =
                  [Post ''Profiler.takePreciseCoverage'',
                   Debug (''Writing '' @ coverageFile)] @
                  (case writeFile_error h of
                     None \<Rightarrow> [WriteFile coverageFile data True]
                   | Some err \<Rightarrow> [WriteFile coverageFile data False, Error (Caught err)]),
                cleared = (if clearCov then Some (ClearCoverageDirectory h covDir) else None)\<rparr>))"

subsection \<open>The program\<close>

text \<open>
  How \<open>jester()\<close> ends: \<open>process.exit(code)\<close>; or the function returns after setting
  \<open>process.exitCode\<close>; or it throws, which rejects its promise with nothing to handle it
  (the host then decides what becomes of the process); or it waits for a promise that
  never settles.
\<close>

datatype ending = Exit int | ExitCode nat | Uncaught error | Unsettled

record process =
  ending :: ending
  main :: "event list"
  tests :: "test_run option"
  clearing :: "(error option \<times> event list) option"

definition report :: "event list \<Rightarrow> nat \<Rightarrow> test_run \<Rightarrow> (error option \<times> event list) option \<Rightarrow>
    AssertionResult list \<Rightarrow> process" where
  "report evs n_modules run bg assertionResults =
     (case aggregate assertionResults of
        Inl err \<Rightarrow> \<lparr>ending = Uncaught err, main = evs, tests = Some run, clearing = bg\<rparr>
      | Inr (failedModules, lines) \<Rightarrow>
          \<lparr>ending = ExitCode failedModules,
           main = evs @ lines @ [WriteTestingSummary failedModules n_modules],
           tests = Some run, clearing = bg\<rparr>)"

definition jester :: "host \<Rightarrow> Configure \<Rightarrow> process" where
  "jester h config =
     (if exitAfter config then
        \<lparr>ending = Exit (exitCode config), main = [], tests = None, clearing = None\<rparr>
      else
        (case discover (readdir_of h) (cwd h) (excludeDirs config) (testDirs config)
                \<lparr>testModules = [], trace = []\<rparr> of
           (Some err, st) \<Rightarrow>
             \<lparr>ending = Exit (- 1), main = trace st @ [Error (Caught err)],
              tests = None, clearing = None\<rparr>
         | (None, st) \<Rightarrow>
             (case (if coverageEnabled config then StartCoverage h else (None, [])) of
                (Some err, evs) \<Rightarrow>
                  \<lparr>ending = Uncaught err, main = trace st @ [Connect] @ evs,
                   tests = None, clearing = None\<rparr>
              | (None, evs) \<Rightarrow>
                  (let run = RunTests (testModules st) config;
                       before = trace st @ [Connect] @ evs
                   in case outcome run of
                        Rejected err \<Rightarrow>
                          \<lparr>ending = Exit (- 1), main = before @ [Error (Caught err)],
                           tests = Some run, clearing = None\<rparr>
                      | Pending \<Rightarrow>
                          \<lparr>ending = Unsettled, main = before, tests = Some run, clearing = None\<rparr>
                      | Fulfilled assertionResults \<Rightarrow>
                          (let cov = (if coverageEnabled config then
                                        WriteCoverageResults h (coverageDir config)
                                          (clearCoverage config)
                                      else \<lparr>written = [], cleared = None\<rparr>)
                           in report (before @ written cov @ [Disconnect])
                                (length (testModules st)) run (cleared cov)
                                assertionResults)))))"

text \<open>The lines of the module-by-module report and of the final summary.\<close>

fun is_report :: "event \<Rightarrow> bool" where
  "is_report (WriteModuleHead mid) = True"
| "is_report (WriteAssertionResult r aid s) = True"
| "is_report (WriteModuleSummary mid n k) = True"
| "is_report (WriteTestingSummary k n) = True"
| "is_report ev = False"

text \<open>
  The events a walk can add to the trace; the snapshot writes; and the deletions in a
  list of events, each with its outcome.
\<close>

fun is_walk_event :: "event \<Rightarrow> bool" where
  "is_walk_event (Debug s) = True"
| "is_walk_event (Error x) = True"
| "is_walk_event (Readdir p) = True"
| "is_walk_event (Stat p) = True"
| "is_walk_event (Import p) = True"
| "is_walk_event ev = False"

fun is_WriteFile :: "event \<Rightarrow> bool" where
  "is_WriteFile (WriteFile p d ok) = True"
| "is_WriteFile ev = False"

fun unlinks :: "event list \<Rightarrow> (string \<times> bool) list" where
  "unlinks [] = []"
| "unlinks (Unlink p ok # evs) = (p, ok) # unlinks evs"
| "unlinks (ev # evs) = unlinks evs"

subsection \<open>Example inputs\<close>

text \<open>
  A configuration, some assertion definitions and a few modules, used to run the
  definitions above on concrete inputs.
\<close>

definition example_config :: Configure where
  "example_config =
     \<lparr>exitAfter = False, exitCode = 0, testDirs = [''tests''],
      excludeDirs = [''/proj/tests/fixtures''], coverageEnabled = False,
      coverageDir = ''/proj/coverage'', clearCoverage = False, dryRun = False\<rparr>"

definition passing :: AssertionDef where
  "passing = \<lparr>function' = Settles 0 Completes, skip = False\<rparr>"

definition violated :: AssertionDef where
  "violated = \<lparr>function' = Throws (Thrown AssertionError ''expected 1, got 2''), skip = False\<rparr>"

definition crashing :: AssertionDef where
  "crashing = \<lparr>function' = Settles 2 (Fails (Thrown PlainError ''boom'')), skip = False\<rparr>"

definition marked_skip :: AssertionDef where
  "marked_skip = \<lparr>function' = Throws (Thrown PlainError ''boom''), skip = True\<rparr>"


definition module_a :: TestModule where
  "module_a =
     \<lparr>id' = ''a.js'',
      assertions = [(''passes'', Defined passing), (''is skipped'', Defined marked_skip)],
      setUp = Exported, tearDown = Exported\<rparr>"

definition module_b :: TestModule where
  "module_b =
     \<lparr>id' = ''b.js'',
      assertions = [(''fails'', Defined violated), (''fails too'', Defined violated)],
      setUp = NoOp, tearDown = NoOp\<rparr>"

definition module_c :: TestModule where
  "module_c =
     \<lparr>id' = ''c.js'',
      assertions = [(''passes'', Defined passing), (''crashes'', Defined crashing)],
      setUp = Exported, tearDown = NoOp\<rparr>"



text \<open>
  A host: the directory \<open>/proj/tests\<close> with two test modules (one in a subdirectory), a
  helper without assertions, a file that does not load, a file that is no source file
  and an excluded directory.
\<close>

definition exports_of :: "TestModule \<Rightarrow> exports" where
  "exports_of m =
     \<lparr>exported_assertions = Some (assertions m), exported_id = Some (id' m),
      exported_setUp = (setUp m = Exported), exported_tearDown = (tearDown m = Exported)\<rparr>"

definition example_tree :: listing where
  "example_tree =
     Entries
       [(''a.js'', File (Loaded (exports_of module_a))),
        (''README.md'', File (LoadFails (Thrown PlainError ''not a module''))),
        (''fixtures'',
           Directory (Entries [(''broken.js'', File (LoadFails (Thrown PlainError ''SyntaxError'')))])),
        (''unit'', Directory (Entries [(''b.js'', File (Loaded (exports_of module_b)))])),
        (''helper.js'',
           File (Loaded \<lparr>exported_assertions = None, exported_id = None,
                          exported_setUp = False, exported_tearDown = False\<rparr>)),
        (''broken.js'', File (LoadFails (Thrown PlainError ''SyntaxError: Unexpected token'')))]"

definition example_host :: host where
  "example_host =
     \<lparr>cwd = ''/proj'',
      readdir_of = (\<lambda>p. if p = ''/proj/tests'' then example_tree
                         else Unreadable (Thrown SystemError ''ENOENT'')),
      post_enable = None,
      post_startPreciseCoverage = None,
      post_takePreciseCoverage = Inr ''{}'',
      now = 1700000000123,
      coverage_entries = Inr [''.gitignore'', ''coverage-1.json'', ''coverage-2.json''],
      unlink_error = (\<lambda>p. None),
      writeFile_error = None,
      logger_is_global = False\<rparr>"

definition crash_host :: host where
  "crash_host =
     example_host\<lparr>readdir_of := (\<lambda>p. Entries [(''c.js'', File (Loaded (exports_of module_c)))])\<rparr>"

text \<open>
  More inputs: a module that names itself \<open>__proto__\<close>, a host whose test directory holds
  one file, two directories in which one entry cannot be examined, and a record whose
  \<open>assertions\<close> export is the empty object.
\<close>

definition module_p :: TestModule where
  "module_p =
     \<lparr>id' = ''__proto__'', assertions = [(''fails'', Defined violated)],
      setUp = NoOp, tearDown = NoOp\<rparr>"

definition single_file_host :: "string \<Rightarrow> TestModule \<Rightarrow> host" where
  "single_file_host name' m =
     example_host\<lparr>readdir_of := (\<lambda>p. Entries [(name', File (Loaded (exports_of m)))])\<rparr>"

definition dangling_tree :: listing where
  "dangling_tree =
     Entries
       [(''a.js'', File (Loaded (exports_of module_a))),
        (''dangling'', Unstatable (Thrown SystemError ''ENOENT: no such file or directory'')),
        (''b.js'', File (Loaded (exports_of module_b)))]"

definition locked_tree :: listing where
  "locked_tree =
     Entries
       [(''a.js'', File (Loaded (exports_of module_a))),
        (''b.js'', File (Loaded (exports_of module_b))),
        (''locked'', Directory (Unreadable (Thrown SystemError ''EACCES: permission denied'')))]"

definition empty_exports :: exports where
  "empty_exports =
     \<lparr>exported_assertions = Some [], exported_id = None,
      exported_setUp = False, exported_tearDown = False\<rparr>"

text \<open>The example tree with other contents below \<open>fixtures\<close>.\<close>

definition other_fixtures :: listing where
  "other_fixtures =
     Entries
       [(''a.js'', File (Loaded (exports_of module_a))),
        (''README.md'', File (LoadFails (Thrown PlainError ''not a module''))),
        (''fixtures'',
           Directory (Entries
             [(''c.js'', File (Loaded (exports_of module_c))),
              (''dangling'', Unstatable (Thrown SystemError ''ENOENT'')),
              (''deep'', Directory (Unreadable (Thrown SystemError ''EACCES'')))])),
        (''unit'', Directory (Entries [(''b.js'', File (Loaded (exports_of module_b)))])),
        (''helper.js'',
           File (Loaded \<lparr>exported_assertions = None, exported_id = None,
                          exported_setUp = False, exported_tearDown = False\<rparr>)),
        (''broken.js'', File (LoadFails (Thrown PlainError ''SyntaxError: Unexpected token'')))]"

text \<open>
  Coverage switched on, with the clear operation; a host whose profiler refuses
  \<open>Profiler.enable\<close>.
\<close>

definition coverage_config :: Configure where
  "coverage_config = example_config\<lparr>coverageEnabled := True, clearCoverage := True\<rparr>"

definition no_profiler_host :: host where
  "no_profiler_host =
     (single_file_host ''a.js'' module_a)
       \<lparr>post_enable := Some (Thrown PlainError ''Profiler.enable failed'')\<rparr>"

section \<open>Properties\<close>

subsection \<open>Running the definitions\<close>

text \<open>
  The equations that evaluate the executor, the aggregation, the walk, the coverage
  operations and the example hosts on an input.
\<close>

lemmas run_simps =
  RunTests_def launches_def RunUnit_def tearDown_and_resolve_def
  Promise_all_def instanceof_AssertionError_def

lemmas aggregate_simps =
  aggregate_def hasOwnProperty_def assign_empty_def push_result_def Object_entries_def
  is_array_index_def is_digit_def failedAssertions_def

lemmas walk_simps =
  FindTestModules.simps GetEntries_def GetEntryStats_def emit_def import_entry_def
  fill_defaults_def import_specifier_def join_def normalize_def Let_def

lemmas coverage_simps =
  StartCoverage_def WriteCoverageResults_def ClearCoverageDirectory_def pathSep_def
  digit_char_def

lemmas host_simps =
  single_file_host_def example_host_def example_config_def coverage_config_def exports_of_def

subsection \<open>The executor\<close>

lemma behaviour_cases:
  obtains (NotCallable) "b = NotCallable"
  | (Throws) e where "b = Throws e"
  | (Completes) n where "b = Settles n Completes"
  | (Fails) n e where "b = Settles n (Fails e)"
  | (Never) "b = Never"
  by (cases b) (auto intro: completion.exhaust)

lemma skipped_flag_eq:
  "skipped_flag dry a =
     (if dry then Some True
      else case a of Nullish \<Rightarrow> None | Defined d \<Rightarrow> Some (skip d))"
  by (cases dry; cases a) simp_all

lemma function_field_is_read_from_a_definition:
  "skipped_flag dry a = Some False \<Longrightarrow> \<exists>d. a = Defined d \<and> \<not> skip d \<and> \<not> dry"
  by (cases dry; cases a) simp_all

lemma length_units: "length (units (RunTests ms config)) = length (launches ms)"
  by (simp add: RunTests_def Let_def)

lemma nth_units:
  "i < length (launches ms) \<Longrightarrow> launches ms ! i = (m, aid, a) \<Longrightarrow>
   units (RunTests ms config) ! i = RunUnit config m aid a"
  by (simp add: RunTests_def Let_def)

lemma fulfilled_values_nth:
  "fulfilled_values us = Some rs \<Longrightarrow>
   length rs = length us \<and> (\<forall>i < length us. promise (us ! i) = Fulfilled (rs ! i))"
proof (induction us arbitrary: rs)
  case Nil
  then show ?case by simp
next
  case (Cons u us)
  from Cons.prems obtain r rs' where
    u: "promise u = Fulfilled r" and rs': "fulfilled_values us = Some rs'" and rs: "rs = r # rs'"
    by (auto split: promise.splits)
  from Cons.IH [OF rs'] show ?case
    by (auto simp: rs u nth_Cons split: nat.splits)
qed

lemma outcome_Fulfilled:
  "outcome (RunTests ms config) = Fulfilled rs \<Longrightarrow>
   length rs = length (launches ms) \<and>
   (\<forall>i < length (launches ms). promise (units (RunTests ms config) ! i) = Fulfilled (rs ! i))"
proof -
  assume "outcome (RunTests ms config) = Fulfilled rs"
  then have "fulfilled_values (units (RunTests ms config)) = Some rs"
    by (auto simp: RunTests_def Promise_all_def Let_def split: option.splits prod.splits)
  from fulfilled_values_nth [OF this] show ?thesis
    by (simp add: length_units)
qed

lemma RunUnit_Fulfilled:
  "promise (RunUnit config m aid a) = Fulfilled r \<Longrightarrow>
   testModuleId r = id' m \<and> assertionId r = aid \<and>
   skipped r = (dryRun config \<or> (\<exists>d. a = Defined d \<and> skip d)) \<and>
   (skipped r \<longrightarrow> result r \<and> events (RunUnit config m aid a) = [SetUp (id' m), TearDown (id' m)])"
proof (cases a)
  case Nullish
  assume "promise (RunUnit config m aid a) = Fulfilled r"
  with Nullish show ?thesis
    by (auto simp: RunUnit_def skipped_flag_eq tearDown_and_resolve_def split: if_splits)
next
  case (Defined d)
  assume "promise (RunUnit config m aid a) = Fulfilled r"
  with Defined show ?thesis
    by (cases "function' d" rule: behaviour_cases)
       (auto simp: RunUnit_def skipped_flag_eq tearDown_and_resolve_def Let_def
             split: if_splits option.splits)
qed

lemma RunUnit_Rejected:
  "promise (RunUnit config m aid a) = Rejected e \<Longrightarrow> \<not> instanceof_AssertionError e"
proof (cases a)
  case Nullish
  assume "promise (RunUnit config m aid a) = Rejected e"
  with Nullish show ?thesis
    by (auto simp: RunUnit_def skipped_flag_eq tearDown_and_resolve_def split: if_splits)
next
  case (Defined d)
  assume "promise (RunUnit config m aid a) = Rejected e"
  with Defined show ?thesis
    by (cases "function' d" rule: behaviour_cases)
       (auto simp: RunUnit_def skipped_flag_eq tearDown_and_resolve_def Let_def
             split: if_splits option.splits)
qed

lemma first_rejection_mem:
  "first_rejection us = Some (t, e) \<Longrightarrow> \<exists>u \<in> set us. promise u = Rejected e \<and> at u = t"
proof (induction us arbitrary: t e)
  case Nil
  then show ?case by simp
next
  case (Cons v us)
  show ?case
  proof (cases "first_rejection us")
    case None
    with Cons.prems show ?thesis
      by (cases "promise v") auto
  next
    case (Some p)
    obtain t' e' where p: "p = (t', e')" by (cases p)
    from Cons.IH [of t' e'] Some p obtain u where
      "u \<in> set us" "promise u = Rejected e'" "at u = t'" by auto
    with Cons.prems Some p show ?thesis
      by (cases "promise v") (auto split: if_splits)
  qed
qed

lemma first_rejection_None:
  "first_rejection us = None \<Longrightarrow> u \<in> set us \<Longrightarrow> promise u \<noteq> Rejected e"
  by (induction us) (auto split: promise.splits option.splits if_splits)

lemma first_rejection_Some:
  assumes "u \<in> set us" and "promise u = Rejected e"
  shows "\<exists>t e' u'. first_rejection us = Some (t, e') \<and> u' \<in> set us \<and> promise u' = Rejected e'"
proof (cases "first_rejection us")
  case None
  from first_rejection_None [OF None assms(1), of e] assms(2) show ?thesis by simp
next
  case (Some p)
  obtain t e' where "p = (t, e')" by (cases p)
  with Some first_rejection_mem [of us t e'] show ?thesis
    by auto
qed

lemma Promise_all_Rejected:
  "u \<in> set us \<Longrightarrow> promise u = Rejected e \<Longrightarrow>
   \<exists>e' u'. Promise_all us = Rejected e' \<and> u' \<in> set us \<and> promise u' = Rejected e'"
  using first_rejection_Some [of u us e] by (auto simp: Promise_all_def)

text \<open>
  The three ways \<open>Promise.all\<close> can come out, read backwards: a rejection is the rejection
  of one of the inputs; when every input is fulfilled, so is the whole; and with an input
  that stays pending the whole is never fulfilled.
\<close>

lemma Promise_all_Rejected_mem:
  "Promise_all us = Rejected e \<Longrightarrow> \<exists>u \<in> set us. promise u = Rejected e"
proof -
  assume a: "Promise_all us = Rejected e"
  then obtain t where "first_rejection us = Some (t, e)"
    by (auto simp: Promise_all_def split: option.splits)
  from first_rejection_mem [OF this] show ?thesis
    by blast
qed

lemma fulfilled_values_Some:
  "\<forall>u \<in> set us. \<exists>r. promise u = Fulfilled r \<Longrightarrow> \<exists>rs. fulfilled_values us = Some rs"
  by (induction us) auto

lemma first_rejection_fulfilled:
  "\<forall>u \<in> set us. \<exists>r. promise u = Fulfilled r \<Longrightarrow> first_rejection us = None"
  by (induction us) auto

lemma Promise_all_Fulfilled:
  assumes "\<forall>u \<in> set us. \<exists>r. promise u = Fulfilled r"
  shows "\<exists>rs. Promise_all us = Fulfilled rs"
  using fulfilled_values_Some [OF assms] first_rejection_fulfilled [OF assms]
  by (auto simp: Promise_all_def)



lemma RunTests_rejects:
  assumes "(m, aid, a) \<in> set (launches ms)" and "promise (RunUnit config m aid a) = Rejected e"
  shows "\<exists>e'. outcome (RunTests ms config) = Rejected e' \<and> \<not> instanceof_AssertionError e'"
proof -
  let ?us = "map (\<lambda>(m, aid, a). RunUnit config m aid a) (launches ms)"
  from assms(1) have "RunUnit config m aid a \<in> set ?us" by force
  from Promise_all_Rejected [OF this assms(2)] obtain e' u' where
    a: "Promise_all ?us = Rejected e'" and u': "u' \<in> set ?us" "promise u' = Rejected e'"
    by blast
  from u' have "\<not> instanceof_AssertionError e'"
    by (auto dest: RunUnit_Rejected)
  with a show ?thesis
    by (auto simp: RunTests_def Let_def)
qed

lemma RunTests_rejected_by_a_unit:
  assumes "outcome (RunTests ms config) = Rejected e"
  shows "\<exists>j < length (launches ms). promise (units (RunTests ms config) ! j) = Rejected e"
proof -
  from assms have "Promise_all (units (RunTests ms config)) = Rejected e"
    by (simp add: RunTests_def Let_def)
  from Promise_all_Rejected_mem [OF this] obtain u where
    "u \<in> set (units (RunTests ms config))" "promise u = Rejected e"
    by blast
  then show ?thesis
    by (auto simp: in_set_conv_nth length_units)
qed

lemma RunTests_fulfils:
  assumes "\<forall>j < length (launches ms). \<exists>r. promise (units (RunTests ms config) ! j) = Fulfilled r"
  shows "\<exists>rs. outcome (RunTests ms config) = Fulfilled rs"
proof -
  from assms have "\<forall>u \<in> set (units (RunTests ms config)). \<exists>r. promise u = Fulfilled r"
    by (auto simp: in_set_conv_nth length_units)
  from Promise_all_Fulfilled [OF this] show ?thesis
    by (simp add: RunTests_def Let_def)
qed


lemma RunUnit_Abrupt:
  assumes "\<not> dryRun config" "\<not> skip d"
    and "await_function (id' m) aid (function' d) = (evs, t, Abrupt err)"
  shows "events (RunUnit config m aid (Defined d)) =
           SetUp (id' m) # evs @ (if instanceof_AssertionError err then [Error (Caught err)] else []) @
           [TearDown (id' m)]"
    and "\<not> instanceof_AssertionError err \<Longrightarrow> promise (RunUnit config m aid (Defined d)) = Rejected err"
    and "instanceof_AssertionError err \<Longrightarrow>
         promise (RunUnit config m aid (Defined d)) =
           Fulfilled \<lparr>testModuleId = id' m, assertionId = aid, result = False, skipped = False\<rparr>"
  using assms by (auto simp: RunUnit_def tearDown_and_resolve_def)

lemma RunUnit_reaches_tearDown:
  assumes "\<not> dryRun config" "\<not> skip d" "function' d \<noteq> Never"
  shows "\<exists>evs. events (RunUnit config m aid (Defined d)) = SetUp (id' m) # evs @ [TearDown (id' m)]"
  using assms
  by (cases "function' d" rule: behaviour_cases)
     (auto simp: RunUnit_def tearDown_and_resolve_def)

text \<open>
  Claim C1. Every result that \<open>RunTests\<close> returns belongs to the unit launched at the same
  position; its \<open>skipped\<close> field is true exactly when \<open>dryRun\<close> is set or the entry is a
  definition marked \<open>skip\<close>; and a skipped unit has \<open>result = true\<close> and made no call but
  \<open>setUp\<close> and \<open>tearDown\<close>: the assertion function was not invoked.
\<close>

theorem skipped_iff_dryRun_or_skip:
  assumes "outcome (RunTests ms config) = Fulfilled rs"
    and "i < length rs"
    and "launches ms ! i = (m, aid, a)"
  shows "testModuleId (rs ! i) = id' m \<and> assertionId (rs ! i) = aid \<and>
         skipped (rs ! i) = (dryRun config \<or> (\<exists>d. a = Defined d \<and> skip d)) \<and>
         (skipped (rs ! i) \<longrightarrow>
            result (rs ! i) \<and>
            events (units (RunTests ms config) ! i) = [SetUp (id' m), TearDown (id' m)])"
proof -
  from outcome_Fulfilled [OF assms(1)] assms(2) have
    i: "i < length (launches ms)" and
    p: "promise (units (RunTests ms config) ! i) = Fulfilled (rs ! i)"
    by auto
  from nth_units [OF i assms(3)] have u: "units (RunTests ms config) ! i = RunUnit config m aid a" .
  from RunUnit_Fulfilled [of config m aid a "rs ! i"] p show ?thesis
    by (simp add: u)
qed

theorem skipped_iff_dryRun_or_skip_witness:
  "outcome (RunTests [module_a] example_config) =
     Fulfilled [\<lparr>testModuleId = ''a.js'', assertionId = ''passes'', result = True, skipped = False\<rparr>,
                \<lparr>testModuleId = ''a.js'', assertionId = ''is skipped'', result = True, skipped = True\<rparr>] \<and>
   launches [module_a] ! 1 = (module_a, ''is skipped'', Defined marked_skip) \<and>
   skip marked_skip \<and>
   events (units (RunTests [module_a] example_config) ! 1) = [SetUp ''a.js'', TearDown ''a.js'']"
proof -
  let ?rs = "[\<lparr>testModuleId = ''a.js'', assertionId = ''passes'', result = True, skipped = False\<rparr>,
              \<lparr>testModuleId = ''a.js'', assertionId = ''is skipped'', result = True, skipped = True\<rparr>]"
  have run: "outcome (RunTests [module_a] example_config) = Fulfilled ?rs"
    by (simp add: RunTests_def launches_def RunUnit_def tearDown_and_resolve_def Promise_all_def
          module_a_def example_config_def passing_def marked_skip_def)
  have at: "launches [module_a] ! 1 = (module_a, ''is skipped'', Defined marked_skip)"
    by (simp add: launches_def module_a_def)
  have len: "1 < length ?rs"
    by simp
  from skipped_iff_dryRun_or_skip [OF run len at] run at show ?thesis
    by (simp add: marked_skip_def)
qed

text \<open>
  Claim C7. A unit reaches the invocation step when it is not skipped, which takes a
  definition whose \<open>skip\<close> could be read. Whatever the call then does, short of never
  settling (it returns, it throws or rejects with an \<open>AssertionError\<close>, it throws or
  rejects with any other error, the field is not even a function), the last thing the
  unit does is to call the module's \<open>tearDown\<close>; this includes the unit whose \<open>reject\<close>
  fails the whole run.
\<close>

theorem tearDown_always_invoked:
  assumes "i < length (launches ms)"
    and "launches ms ! i = (m, aid, Defined d)"
    and "\<not> dryRun config"
    and "\<not> skip d"
    and "function' d \<noteq> Never"
  shows "\<exists>evs. events (units (RunTests ms config) ! i) = SetUp (id' m) # evs @ [TearDown (id' m)]"
  using RunUnit_reaches_tearDown [OF assms(3-5)] nth_units [OF assms(1,2)]
  by simp

theorem tearDown_always_invoked_witness:
  "launches [module_c] ! 1 = (module_c, ''crashes'', Defined crashing) \<and>
   function' crashing = Settles 2 (Fails (Thrown PlainError ''boom'')) \<and>
   promise (units (RunTests [module_c] example_config) ! 1) = Rejected (Thrown PlainError ''boom'') \<and>
   events (units (RunTests [module_c] example_config) ! 1) =
     [SetUp ''c.js'', Invoke ''c.js'' ''crashes'', TearDown ''c.js'']"
proof -
  have at: "launches [module_c] ! 1 = (module_c, ''crashes'', Defined crashing)"
    by (simp add: launches_def module_c_def)
  have len: "1 < length (launches [module_c])"
    by (simp add: launches_def module_c_def)
  have dry: "\<not> dryRun example_config"
    by (simp add: example_config_def)
  have skp: "\<not> skip crashing"
    by (simp add: crashing_def)
  have fn: "function' crashing \<noteq> Never"
    by (simp add: crashing_def)
  have run: "units (RunTests [module_c] example_config) ! 1 =
      \<lparr>events = [SetUp ''c.js'', Invoke ''c.js'' ''crashes'', TearDown ''c.js''], at = 3,
       promise = Rejected (Thrown PlainError ''boom'')\<rparr>"
    by (simp add: RunTests_def Let_def launches_def RunUnit_def tearDown_and_resolve_def
          instanceof_AssertionError_def module_c_def example_config_def crashing_def passing_def)
  from tearDown_always_invoked [OF len at dry skp fn] at run show ?thesis
    by (simp add: crashing_def)
qed

subsection \<open>What a walk adds to the trace\<close>

declare FindTestModules.simps [simp del]

lemma filter_emit:
  "filter P (trace (emit evs st)) = filter P (trace st) @ filter P evs"
  by (simp add: emit_def)

lemma filter_import_entry:
  assumes "\<And>ev. is_walk_event ev \<Longrightarrow> \<not> P ev"
  shows "filter P (trace (import_entry eachEntry fullPath ld st)) = filter P (trace st)"
  by (simp add: import_entry_def emit_def Let_def assms split: load.splits option.splits)

lemma filter_walk:
  assumes blind: "\<And>ev. is_walk_event ev \<Longrightarrow> \<not> P ev"
  shows "filter P (trace (snd (FindTestModules dir excl l st))) = filter P (trace st)"
    and "filter P (trace (snd (for_entries dir excl entries ff st))) = filter P (trace st)"
proof (induction dir excl l st and dir excl entries ff st rule: FindTestModules_for_entries.induct)
  case (1 dir excl l st)
  then show ?case
    by (cases l) (simp_all add: FindTestModules.simps GetEntries_def filter_emit blind)
next
  case (2 dir excl ff st)
  then show ?case by simp
next
  case (3 dir excl eachEntry nd rest ff st)
  let ?p = "join dir eachEntry"
  show ?case
  proof (cases nd)
    case (File ld)
    with 3 show ?thesis
      by (simp add: GetEntryStats_def Let_def filter_emit filter_import_entry blind)
  next
    case (Unstatable err)
    then show ?thesis
      by (simp add: GetEntryStats_def Let_def filter_emit blind)
  next
    case (Directory l)
    show ?thesis
    proof (cases "?p \<in> set excl")
      case True
      with Directory 3(1) [OF refl, of "[Stat ?p]" "Inr (IsDirectory l)" "IsDirectory l" l]
      show ?thesis
        by (simp add: GetEntryStats_def Let_def filter_emit blind)
    next
      case False
      obtain r st' where w: "FindTestModules ?p excl l (emit [Stat ?p] st) = (r, st')"
        by (cases "FindTestModules ?p excl l (emit [Stat ?p] st)")
      from Directory False 3(2) [OF refl, of "[Stat ?p]" "Inr (IsDirectory l)" "IsDirectory l" l] w
      have a: "filter P (trace st') = filter P (trace st)"
        by (simp add: GetEntryStats_def filter_emit blind)
      from Directory False 3(3) [OF refl, of "[Stat ?p]" "Inr (IsDirectory l)" "IsDirectory l" l r st'] w
      have "filter P (trace (snd (for_entries dir excl rest (ff @ [r]) st'))) = filter P (trace st')"
        by (simp add: GetEntryStats_def)
      with a w Directory False show ?thesis
        by (simp add: GetEntryStats_def Let_def)
    qed
  qed
qed

lemma filter_discover:
  assumes blind: "\<And>ev. is_walk_event ev \<Longrightarrow> \<not> P ev"
  shows "filter P (trace (snd (discover fs wd excl dirs st))) = filter P (trace st)"
proof (induction dirs arbitrary: st)
  case Nil
  then show ?case by simp
next
  case (Cons d dirs)
  obtain r st' where w: "FindTestModules (join wd d) excl (fs (join wd d)) st = (r, st')"
    by (cases "FindTestModules (join wd d) excl (fs (join wd d)) st")
  from filter_walk(1) [of P "join wd d" excl "fs (join wd d)" st, OF blind] w
  have "filter P (trace st') = filter P (trace st)"
    by simp
  with w Cons.IH [of st'] show ?case
    by (cases r) simp_all
qed

lemma walk_blind_report: "is_walk_event ev \<Longrightarrow> \<not> is_report ev"
  by (cases ev) simp_all

lemma walk_blind_WriteFile: "is_walk_event ev \<Longrightarrow> \<not> is_WriteFile ev"
  by (cases ev) simp_all

lemma filter_report_modules:
  assumes "\<And>ev. is_report ev \<Longrightarrow> \<not> P ev"
  shows "filter P (snd (report_modules entries n evs)) = filter P evs"
proof (induction entries arbitrary: n evs)
  case Nil
  then show ?case by simp
next
  case (Cons e entries)
  obtain mid rs where e: "e = (mid, rs)" by (cases e)
  have "filter P (map (\<lambda>r. WriteAssertionResult (result r) (assertionId r) (skipped r)) rs) = []"
    by (induction rs) (simp_all add: assms)
  with Cons.IH show ?case
    by (simp add: e assms)
qed


subsection \<open>Fatal errors and assertion failures\<close>

lemma jester_rejected:
  assumes "\<not> exitAfter config"
    and "discover (readdir_of h) (cwd h) (excludeDirs config) (testDirs config)
           \<lparr>testModules = [], trace = []\<rparr> = (None, st)"
    and "coverageEnabled config \<longrightarrow> fst (StartCoverage h) = None"
    and "outcome (RunTests (testModules st) config) = Rejected e"
  shows "jester h config =
           \<lparr>ending = Exit (- 1),
            main = trace st @ [Connect] @
                   (if coverageEnabled config then snd (StartCoverage h) else []) @
                   [Error (Caught e)],
            tests = Some (RunTests (testModules st) config), clearing = None\<rparr>"
  using assms
  by (cases "StartCoverage h") (auto simp: jester_def Let_def)

lemma jester_reports:
  assumes "\<not> exitAfter config"
    and "discover (readdir_of h) (cwd h) (excludeDirs config) (testDirs config)
           \<lparr>testModules = [], trace = []\<rparr> = (None, st)"
    and "coverageEnabled config \<longrightarrow> fst (StartCoverage h) = None"
    and "outcome (RunTests (testModules st) config) = Fulfilled rs"
  shows "\<exists>evs bg. jester h config =
           report evs (length (testModules st)) (RunTests (testModules st) config) bg rs"
  using assms
  by (cases "StartCoverage h") (auto simp: jester_def Let_def)

lemma report_ends:
  "tests (report evs n run bg rs) = Some run \<and>
   ending (report evs n run bg rs) \<noteq> Exit (- 1) \<and>
   (case aggregate rs of
      Inl e \<Rightarrow> ending (report evs n run bg rs) = Uncaught e
    | Inr (k, lines) \<Rightarrow>
        ending (report evs n run bg rs) = ExitCode k \<and>
        main (report evs n run bg rs) = evs @ lines @ [WriteTestingSummary k n])"
  by (simp add: report_def split: sum.splits prod.splits)

lemma filter_StartCoverage:
  assumes "\<And>s. \<not> P (Post s)"
  shows "filter P (snd (StartCoverage h)) = []"
  by (simp add: StartCoverage_def assms split: option.splits)

text \<open>
  Claim C3. Take a run that gets as far as \<open>RunTests\<close> (no early exit, discovery and the
  start of coverage succeeded) and a launched unit that reaches its call, which throws or
  rejects with \<open>err\<close>.

  If \<open>err\<close> is no \<open>AssertionError\<close>, the promise of \<open>RunTests\<close> is rejected, \<open>jester\<close> ends
  in \<open>process.exit(-1)\<close>, and its trace holds no line of the report.

  If \<open>err\<close> is an \<open>AssertionError\<close>, the unit logs it, still calls \<open>tearDown\<close> and resolves
  with \<open>result = false\<close>. The run goes on: if \<open>RunTests\<close> is rejected, the rejection is that
  of another unit; and when the other units are fulfilled, \<open>RunTests\<close> is fulfilled, with
  this unit's result at its position, and \<open>jester\<close> goes through the report to its end. It
  does not call \<open>process.exit(-1)\<close>: it sets \<open>process.exitCode\<close> after the final summary
  line (or is stopped by the \<open>TypeError\<close> of the grouping loop, when a module is named
  \<open>hasOwnProperty\<close>).
\<close>

theorem fatal_error_rejects_the_run:
  assumes "\<not> exitAfter config"
    and "discover (readdir_of h) (cwd h) (excludeDirs config) (testDirs config)
           \<lparr>testModules = [], trace = []\<rparr> = (None, st)"
    and "coverageEnabled config \<longrightarrow> fst (StartCoverage h) = None"
    and "i < length (launches (testModules st))"
    and "launches (testModules st) ! i = (m, aid, Defined d)"
    and "\<not> dryRun config"
    and "\<not> skip d"
    and "await_function (id' m) aid (function' d) = (evs, t, Abrupt err)"
  shows "(\<not> instanceof_AssertionError err \<longrightarrow>
            (\<exists>e. \<not> instanceof_AssertionError e \<and>
                 outcome (RunTests (testModules st) config) = Rejected e \<and>
                 ending (jester h config) = Exit (- 1) \<and>
                 filter is_report (main (jester h config)) = [])) \<and>
         (instanceof_AssertionError err \<longrightarrow>
            events (units (RunTests (testModules st) config) ! i) =
              SetUp (id' m) # evs @ [Error (Caught err), TearDown (id' m)] \<and>
            promise (units (RunTests (testModules st) config) ! i) =
              Fulfilled \<lparr>testModuleId = id' m, assertionId = aid, result = False, skipped = False\<rparr> \<and>
            (\<forall>e. outcome (RunTests (testModules st) config) = Rejected e \<longrightarrow>
                 (\<exists>j < length (launches (testModules st)).
                     j \<noteq> i \<and> promise (units (RunTests (testModules st) config) ! j) = Rejected e)) \<and>
            ((\<forall>j < length (launches (testModules st)).
                 j \<noteq> i \<longrightarrow> (\<exists>r. promise (units (RunTests (testModules st) config) ! j) = Fulfilled r)) \<longrightarrow>
               (\<exists>rs. outcome (RunTests (testModules st) config) = Fulfilled rs \<and>
                     rs ! i = \<lparr>testModuleId = id' m, assertionId = aid,
                               result = False, skipped = False\<rparr> \<and>
                     tests (jester h config) = Some (RunTests (testModules st) config) \<and>
                     ending (jester h config) \<noteq> Exit (- 1) \<and>
                     (case aggregate rs of
                        Inl e \<Rightarrow> ending (jester h config) = Uncaught e
                      | Inr (k, lines) \<Rightarrow>
                          ending (jester h config) = ExitCode k \<and>
                          (\<exists>before. main (jester h config) =
                             before @ lines @
                             [WriteTestingSummary k (length (testModules st))])))))"
proof (intro conjI impI)
  let ?R = "RunTests (testModules st) config"
  have u: "units ?R ! i = RunUnit config m aid (Defined d)"
    by (rule nth_units [OF assms(4,5)])
  {
    assume fatal: "\<not> instanceof_AssertionError err"
    from RunUnit_Abrupt(2) [OF assms(6-8) fatal]
    have "promise (RunUnit config m aid (Defined d)) = Rejected err" .
    moreover from assms(4,5) have "(m, aid, Defined d) \<in> set (launches (testModules st))"
      by (auto simp: in_set_conv_nth)
    ultimately obtain e where
      e: "outcome ?R = Rejected e" "\<not> instanceof_AssertionError e"
      using RunTests_rejects by blast
    from filter_discover [of is_report "readdir_of h" "cwd h" "excludeDirs config" "testDirs config"
        "\<lparr>testModules = [], trace = []\<rparr>", OF walk_blind_report] assms(2)
    have "filter is_report (trace st) = []"
      by simp
    with jester_rejected [OF assms(1-3) e(1)] e show
      "\<exists>e. \<not> instanceof_AssertionError e \<and>
           outcome ?R = Rejected e \<and>
           ending (jester h config) = Exit (- 1) \<and>
           filter is_report (main (jester h config)) = []"
      by (auto simp: filter_StartCoverage)
  }
  assume ae: "instanceof_AssertionError err"
  from RunUnit_Abrupt(1) [OF assms(6-8)] ae u
  show "events (units ?R ! i) = SetUp (id' m) # evs @ [Error (Caught err), TearDown (id' m)]"
    by simp
  from RunUnit_Abrupt(3) [OF assms(6-8) ae] u
  show p: "promise (units ?R ! i) =
      Fulfilled \<lparr>testModuleId = id' m, assertionId = aid, result = False, skipped = False\<rparr>"
    by simp
  show "\<forall>e. outcome ?R = Rejected e \<longrightarrow>
          (\<exists>j < length (launches (testModules st)). j \<noteq> i \<and> promise (units ?R ! j) = Rejected e)"
  proof (intro allI impI)
    fix e
    assume "outcome ?R = Rejected e"
    from RunTests_rejected_by_a_unit [OF this] obtain j where
      j: "j < length (launches (testModules st))" "promise (units ?R ! j) = Rejected e"
      by blast
    with p have "j \<noteq> i" by auto
    with j show "\<exists>j < length (launches (testModules st)). j \<noteq> i \<and> promise (units ?R ! j) = Rejected e"
      by blast
  qed
  assume others: "\<forall>j < length (launches (testModules st)).
      j \<noteq> i \<longrightarrow> (\<exists>r. promise (units ?R ! j) = Fulfilled r)"
  have "\<forall>j < length (launches (testModules st)). \<exists>r. promise (units ?R ! j) = Fulfilled r"
  proof (intro allI impI)
    fix j
    assume "j < length (launches (testModules st))"
    with others p show "\<exists>r. promise (units ?R ! j) = Fulfilled r"
      by (cases "j = i") simp_all
  qed
  from RunTests_fulfils [OF this] obtain rs where rs: "outcome ?R = Fulfilled rs"
    by blast
  from outcome_Fulfilled [OF rs] assms(4) p have at: "rs ! i =
      \<lparr>testModuleId = id' m, assertionId = aid, result = False, skipped = False\<rparr>"
    by simp
  from jester_reports [OF assms(1-3) rs] obtain before bg where
    j: "jester h config = report before (length (testModules st)) ?R bg rs"
    by blast
  from report_ends [of before "length (testModules st)" ?R bg rs]
  have "tests (jester h config) = Some ?R \<and>
        ending (jester h config) \<noteq> Exit (- 1) \<and>
        (case aggregate rs of
           Inl e \<Rightarrow> ending (jester h config) = Uncaught e
         | Inr (k, lines) \<Rightarrow>
             ending (jester h config) = ExitCode k \<and>
             (\<exists>before. main (jester h config) =
                before @ lines @ [WriteTestingSummary k (length (testModules st))]))"
    by (auto simp: j split: sum.splits prod.splits)
  with rs at show "\<exists>rs. outcome ?R = Fulfilled rs \<and>
      rs ! i = \<lparr>testModuleId = id' m, assertionId = aid, result = False, skipped = False\<rparr> \<and>
      tests (jester h config) = Some ?R \<and>
      ending (jester h config) \<noteq> Exit (- 1) \<and>
      (case aggregate rs of
         Inl e \<Rightarrow> ending (jester h config) = Uncaught e
       | Inr (k, lines) \<Rightarrow>
           ending (jester h config) = ExitCode k \<and>
           (\<exists>before. main (jester h config) =
              before @ lines @ [WriteTestingSummary k (length (testModules st))]))"
    by blast
qed

lemma crash_discovery:
  "discover (readdir_of crash_host) (cwd crash_host) (excludeDirs example_config)
     (testDirs example_config) \<lparr>testModules = [], trace = []\<rparr> =
   (None,
    \<lparr>testModules = [module_c],
     trace = [Debug ''Looking in: /proj/tests'', Readdir ''/proj/tests'',
              Stat ''/proj/tests/c.js'', Debug ''Found file: /proj/tests/c.js'',
              Import ''/proj/tests/c.js'', Debug ''Found module: c.js'']\<rparr>)"
  by (simp add: crash_host_def host_simps module_c_def walk_simps)

lemma violation_discovery:
  "discover (readdir_of (single_file_host ''b.js'' module_b))
     (cwd (single_file_host ''b.js'' module_b)) (excludeDirs example_config)
     (testDirs example_config) \<lparr>testModules = [], trace = []\<rparr> =
   (None,
    \<lparr>testModules = [module_b],
     trace = [Debug ''Looking in: /proj/tests'', Readdir ''/proj/tests'',
              Stat ''/proj/tests/b.js'', Debug ''Found file: /proj/tests/b.js'',
              Import ''/proj/tests/b.js'', Debug ''Found module: b.js'']\<rparr>)"
  by (simp add: host_simps module_b_def walk_simps)

theorem fatal_error_rejects_the_run_witness:
  "launches [module_c] ! 1 = (module_c, ''crashes'', Defined crashing) \<and>
   await_function ''c.js'' ''crashes'' (function' crashing) =
     ([Invoke ''c.js'' ''crashes''], 3, Abrupt (Thrown PlainError ''boom'')) \<and>
   \<not> instanceof_AssertionError (Thrown PlainError ''boom'') \<and>
   outcome (RunTests [module_c] example_config) = Rejected (Thrown PlainError ''boom'') \<and>
   ending (jester crash_host example_config) = Exit (- 1) \<and>
   filter is_report (main (jester crash_host example_config)) = [] \<and>
   launches [module_b] ! 0 = (module_b, ''fails'', Defined violated) \<and>
   await_function ''b.js'' ''fails'' (function' violated) =
     ([Invoke ''b.js'' ''fails''], 0, Abrupt (Thrown AssertionError ''expected 1, got 2'')) \<and>
   instanceof_AssertionError (Thrown AssertionError ''expected 1, got 2'') \<and>
   events (units (RunTests [module_b] example_config) ! 0) =
     [SetUp ''b.js'', Invoke ''b.js'' ''fails'',
      Error (Caught (Thrown AssertionError ''expected 1, got 2'')), TearDown ''b.js''] \<and>
   outcome (RunTests [module_b] example_config) =
     Fulfilled [\<lparr>testModuleId = ''b.js'', assertionId = ''fails'', result = False, skipped = False\<rparr>,
                \<lparr>testModuleId = ''b.js'', assertionId = ''fails too'', result = False, skipped = False\<rparr>] \<and>
   ending (jester (single_file_host ''b.js'' module_b) example_config) = ExitCode 1 \<and>
   filter is_report (main (jester (single_file_host ''b.js'' module_b) example_config)) =
     [WriteModuleHead ''b.js'',
      WriteAssertionResult False ''fails'' False,
      WriteAssertionResult False ''fails too'' False,
      WriteModuleSummary ''b.js'' 2 2,
      WriteTestingSummary 1 1]"
proof -
  let ?stc = "\<lparr>testModules = [module_c],
     trace = [Debug ''Looking in: /proj/tests'', Readdir ''/proj/tests'',
              Stat ''/proj/tests/c.js'', Debug ''Found file: /proj/tests/c.js'',
              Import ''/proj/tests/c.js'', Debug ''Found module: c.js'']\<rparr>"
  let ?stb = "\<lparr>testModules = [module_b],
     trace = [Debug ''Looking in: /proj/tests'', Readdir ''/proj/tests'',
              Stat ''/proj/tests/b.js'', Debug ''Found file: /proj/tests/b.js'',
              Import ''/proj/tests/b.js'', Debug ''Found module: b.js'']\<rparr>"
  let ?hb = "single_file_host ''b.js'' module_b"
  have a1: "\<not> exitAfter example_config"
    and a3: "coverageEnabled example_config \<longrightarrow> fst (StartCoverage crash_host) = None"
    and b3: "coverageEnabled example_config \<longrightarrow> fst (StartCoverage ?hb) = None"
    and a6: "\<not> dryRun example_config"
    by (simp_all add: example_config_def)
  have c4: "1 < length (launches (testModules ?stc))"
    and c5: "launches (testModules ?stc) ! 1 = (module_c, ''crashes'', Defined crashing)"
    by (simp_all add: launches_def module_c_def)
  have c7: "\<not> skip crashing"
    by (simp add: crashing_def)
  have c8: "await_function (id' module_c) ''crashes'' (function' crashing) =
      ([Invoke ''c.js'' ''crashes''], 3, Abrupt (Thrown PlainError ''boom''))"
    by (simp add: module_c_def crashing_def eval_nat_numeral)
  have fatal: "\<not> instanceof_AssertionError (Thrown PlainError ''boom'')"
    by (simp add: instanceof_AssertionError_def)
  have runc: "outcome (RunTests [module_c] example_config) = Rejected (Thrown PlainError ''boom'')"
    by (simp add: run_simps Let_def module_c_def example_config_def crashing_def passing_def)
  have b4: "0 < length (launches (testModules ?stb))"
    and b5: "launches (testModules ?stb) ! 0 = (module_b, ''fails'', Defined violated)"
    by (simp_all add: launches_def module_b_def)
  have b7: "\<not> skip violated"
    by (simp add: violated_def)
  have b8: "await_function (id' module_b) ''fails'' (function' violated) =
      ([Invoke ''b.js'' ''fails''], 0, Abrupt (Thrown AssertionError ''expected 1, got 2''))"
    by (simp add: module_b_def violated_def)
  have violation: "instanceof_AssertionError (Thrown AssertionError ''expected 1, got 2'')"
    by (simp add: instanceof_AssertionError_def)
  have unitsb: "units (RunTests [module_b] example_config) =
      [\<lparr>events = [SetUp ''b.js'', Invoke ''b.js'' ''fails'',
                  Error (Caught (Thrown AssertionError ''expected 1, got 2'')), TearDown ''b.js''],
        at = 0,
        promise = Fulfilled \<lparr>testModuleId = ''b.js'', assertionId = ''fails'',
                              result = False, skipped = False\<rparr>\<rparr>,
       \<lparr>events = [SetUp ''b.js'', Invoke ''b.js'' ''fails too'',
                  Error (Caught (Thrown AssertionError ''expected 1, got 2'')), TearDown ''b.js''],
        at = 0,
        promise = Fulfilled \<lparr>testModuleId = ''b.js'', assertionId = ''fails too'',
                              result = False, skipped = False\<rparr>\<rparr>]"
    by (simp add: run_simps Let_def module_b_def example_config_def violated_def)
  have lenb: "length (launches [module_b]) = 2"
    by (simp add: launches_def module_b_def)
  have others: "\<forall>j < length (launches (testModules ?stb)).
      j \<noteq> 0 \<longrightarrow> (\<exists>r. promise (units (RunTests (testModules ?stb) example_config) ! j) = Fulfilled r)"
    by (auto simp: unitsb lenb less_Suc_eq numeral_2_eq_2)
  have runb: "outcome (RunTests [module_b] example_config) =
      Fulfilled [\<lparr>testModuleId = ''b.js'', assertionId = ''fails'', result = False, skipped = False\<rparr>,
                 \<lparr>testModuleId = ''b.js'', assertionId = ''fails too'', result = False, skipped = False\<rparr>]"
    by (simp add: run_simps Let_def module_b_def example_config_def violated_def)
  have jb: "ending (jester ?hb example_config) = ExitCode 1"
    "filter is_report (main (jester ?hb example_config)) =
       [WriteModuleHead ''b.js'',
        WriteAssertionResult False ''fails'' False,
        WriteAssertionResult False ''fails too'' False,
        WriteModuleSummary ''b.js'' 2 2,
        WriteTestingSummary 1 1]"
    by (simp_all add: jester_def report_def host_simps walk_simps run_simps aggregate_simps
          module_b_def violated_def)
  from fatal_error_rejects_the_run [OF a1 crash_discovery a3 c4 c5 a6 c7 c8]
    fatal_error_rejects_the_run [OF a1 violation_discovery b3 b4 b5 a6 b7 b8]
    fatal violation runc runb unitsb others jb c5 c8 b5 b8
  show ?thesis
    by (simp add: module_c_def module_b_def)
qed

subsection \<open>Assertion definitions are not validated\<close>




subsection \<open>Aggregation\<close>

text \<open>
  For module ids other than \<open>__proto__\<close> and \<open>hasOwnProperty\<close> the grouping loop is a
  dictionary: one entry per id, holding the results with that id. The count of failed
  modules is then the number of distinct ids that have a result with \<open>result = false\<close>,
  however many such results an id has.
\<close>

lemma fst_push_result: "map fst (push_result obj k r) = map fst obj"
  by (induction obj) (auto simp: push_result_def)

lemma map_of_push_result:
  "map_of (push_result obj k r) k' =
     (if k' = k then map_option (\<lambda>rs. rs @ [r]) (map_of obj k) else map_of obj k')"
  by (induction obj) (auto simp: push_result_def)

lemma group_results_plain:
  assumes "\<forall>r \<in> set rs. testModuleId r \<noteq> ''__proto__'' \<and> testModuleId r \<noteq> ''hasOwnProperty''"
    and "distinct (map fst obj)"
    and "''hasOwnProperty'' \<notin> set (map fst obj)"
  shows "\<exists>obj'. group_results rs obj = Inr obj' \<and> distinct (map fst obj') \<and>
           set (map fst obj') = set (map fst obj) \<union> testModuleId ` set rs \<and>
           (\<forall>k \<in> set (map fst obj').
              map_of obj' k =
                Some ((case map_of obj k of None \<Rightarrow> [] | Some v \<Rightarrow> v) @
                      filter (\<lambda>r. testModuleId r = k) rs))"
  using assms
proof (induction rs arbitrary: obj)
  case Nil
  then show ?case
    by (auto simp: map_of_eq_None_iff [symmetric] split: option.splits)
next
  case (Cons r rs)
  let ?k = "testModuleId r"
  let ?obj1 = "if \<not> hasOwnProperty obj ?k then assign_empty obj ?k else obj"
  let ?obj2 = "push_result ?obj1 ?k r"
  from Cons.prems(1) have k: "?k \<noteq> ''__proto__''" "?k \<noteq> ''hasOwnProperty''"
    by auto
  have keys1: "map fst ?obj1 = (if ?k \<in> set (map fst obj) then map fst obj else map fst obj @ [?k])"
    using k by (simp add: hasOwnProperty_def assign_empty_def)
  have d2: "distinct (map fst ?obj2)"
    using Cons.prems(2) keys1 by (simp add: fst_push_result)
  have h2: "''hasOwnProperty'' \<notin> set (map fst ?obj2)"
    using Cons.prems(3) keys1 k by (simp add: fst_push_result)
  from Cons.prems(1) have rest: "\<forall>r \<in> set rs. testModuleId r \<noteq> ''__proto__'' \<and> testModuleId r \<noteq> ''hasOwnProperty''"
    by simp
  from Cons.IH [OF rest d2 h2] obtain obj' where
    g: "group_results rs ?obj2 = Inr obj'" and d: "distinct (map fst obj')"
    and keys: "set (map fst obj') = set (map fst ?obj2) \<union> testModuleId ` set rs"
    and vals: "\<forall>k \<in> set (map fst obj').
        map_of obj' k =
          Some ((case map_of ?obj2 k of None \<Rightarrow> [] | Some v \<Rightarrow> v) @
                filter (\<lambda>r. testModuleId r = k) rs)"
    by blast
  have step: "group_results (r # rs) obj = group_results rs ?obj2"
    using Cons.prems(3) by (simp add: hasOwnProperty_def Let_def)
  have m1: "map_of ?obj1 k' =
      (if k' = ?k \<and> ?k \<notin> set (map fst obj) then Some [] else map_of obj k')" for k'
    using k by (auto simp: hasOwnProperty_def assign_empty_def map_add_def
        map_of_eq_None_iff [symmetric] split: option.splits)
  have m2: "(case map_of ?obj2 k' of None \<Rightarrow> [] | Some v \<Rightarrow> v) =
      (case map_of obj k' of None \<Rightarrow> [] | Some v \<Rightarrow> v) @ (if k' = ?k then [r] else [])" for k'
    unfolding map_of_push_result m1
    by (auto simp: map_of_eq_None_iff [symmetric] split: option.splits)
  have keys2: "set (map fst obj') = set (map fst obj) \<union> testModuleId ` set (r # rs)"
    using keys keys1 by (auto simp: fst_push_result)
  have vals2: "map_of obj' k' =
      Some ((case map_of obj k' of None \<Rightarrow> [] | Some v \<Rightarrow> v) @
            filter (\<lambda>x. testModuleId x = k') (r # rs))" if "k' \<in> set (map fst obj')" for k'
  proof -
    from vals that have "map_of obj' k' =
        Some ((case map_of ?obj2 k' of None \<Rightarrow> [] | Some v \<Rightarrow> v) @
              filter (\<lambda>r. testModuleId r = k') rs)"
      by blast
    then show ?thesis
      unfolding m2 by (cases "k' = ?k") simp_all
  qed
  show ?case
    unfolding step
    by (intro exI [of _ obj'] conjI g d keys2 ballI) (rule vals2)
qed

lemma fst_report_modules:
  "fst (report_modules entries n evs) =
     n + length (filter (\<lambda>p. failedAssertions (snd p) > 0) entries)"
  by (induction entries arbitrary: n evs) auto

lemma length_filter_Object_entries:
  "length (filter Q (Object_entries obj)) = length (filter Q obj)"
proof -
  let ?ix = "\<lambda>p. is_array_index (fst p)"
  have "length (filter Q (Object_entries obj)) =
      length (filter ?ix (filter Q obj)) + length (filter (\<lambda>p. \<not> ?ix p) (filter Q obj))"
    by (simp add: Object_entries_def filter_sort conj_commute)
  then show ?thesis
    by (simp only: sum_length_filter_compl)
qed

lemma aggregate_counts_failed_ids:
  assumes "\<forall>r \<in> set rs. testModuleId r \<noteq> ''__proto__'' \<and> testModuleId r \<noteq> ''hasOwnProperty''"
  shows "\<exists>lines. aggregate rs =
           Inr (card {k. \<exists>r \<in> set rs. testModuleId r = k \<and> \<not> result r}, lines)"
proof -
  from group_results_plain [OF assms, of "[]"] obtain obj where
    g: "group_results rs [] = Inr obj" and d: "distinct (map fst obj)"
    and keys0: "set (map fst obj) = set (map fst []) \<union> testModuleId ` set rs"
    and vals0: "\<forall>k \<in> set (map fst obj).
        map_of obj k =
          Some ((case map_of [] k of None \<Rightarrow> [] | Some v \<Rightarrow> v) @
                filter (\<lambda>r. testModuleId r = k) rs)"
    by (simp only: list.map distinct.simps list.set empty_iff not_False_eq_True) blast
  from keys0 have keys: "set (map fst obj) = testModuleId ` set rs"
    by simp
  from vals0 have vals: "\<And>k. k \<in> set (map fst obj) \<Longrightarrow>
      map_of obj k = Some (filter (\<lambda>r. testModuleId r = k) rs)"
    by (simp only: map_of.simps option.case append_Nil)
  let ?failed = "\<lambda>p. failedAssertions (snd p) > 0"
  have v: "v = filter (\<lambda>r. testModuleId r = k) rs" if "(k, v) \<in> set obj" for k v
  proof -
    from that d have "map_of obj k = Some v" by simp
    moreover from that have "k \<in> set (map fst obj)" by force
    from vals [OF this] have "map_of obj k = Some (filter (\<lambda>r. testModuleId r = k) rs)" .
    ultimately show ?thesis by simp
  qed
  have "fst ` set (filter ?failed obj) = {k. \<exists>r \<in> set rs. testModuleId r = k \<and> \<not> result r}"
  proof (intro set_eqI iffI)
    fix k assume "k \<in> fst ` set (filter ?failed obj)"
    then obtain w where w: "(k, w) \<in> set obj" "failedAssertions w > 0" by auto
    from v [OF w(1)] w(2) have "filter (\<lambda>r. \<not> result r) (filter (\<lambda>r. testModuleId r = k) rs) \<noteq> []"
      by (auto simp: failedAssertions_def)
    then obtain r where "r \<in> set rs" "testModuleId r = k" "\<not> result r"
      by (auto simp: filter_empty_conv)
    then show "k \<in> {k. \<exists>r \<in> set rs. testModuleId r = k \<and> \<not> result r}" by auto
  next
    fix k assume "k \<in> {k. \<exists>r \<in> set rs. testModuleId r = k \<and> \<not> result r}"
    then obtain r where r: "r \<in> set rs" "testModuleId r = k" "\<not> result r" by auto
    with keys have "k \<in> set (map fst obj)" by auto
    then obtain w where w: "(k, w) \<in> set obj" by auto
    from v [OF w] r have "failedAssertions w > 0"
      by (auto simp: failedAssertions_def filter_empty_conv)
    with w show "k \<in> fst ` set (filter ?failed obj)" by force
  qed
  moreover have "card (fst ` set (filter ?failed obj)) = length (filter ?failed obj)"
  proof -
    from d have "distinct (map fst (filter ?failed obj))"
      by (simp add: distinct_map_filter)
    then have "card (set (map fst (filter ?failed obj))) = length (map fst (filter ?failed obj))"
      by (rule distinct_card)
    then show ?thesis
      by simp
  qed
  ultimately have "length (filter ?failed obj) = card {k. \<exists>r \<in> set rs. testModuleId r = k \<and> \<not> result r}"
    by simp
  moreover have "fst (report_modules (Object_entries obj) 0 []) = length (filter ?failed obj)"
    by (simp add: fst_report_modules length_filter_Object_entries)
  moreover from g have "aggregate rs = Inr (report_modules (Object_entries obj) 0 [])"
    by (simp add: aggregate_def)
  ultimately show ?thesis
    by (cases "report_modules (Object_entries obj) 0 []") simp
qed

text \<open>
  Claim C2, at the input where the program departs from it. A module whose \<open>id\<close> is
  \<open>__proto__\<close> has one assertion, which fails with an \<open>AssertionError\<close>. \<open>RunTests\<close> returns
  its result with \<open>result = false\<close>, but the grouping loop stores nothing under that key
  (the assignment sets the prototype of \<open>moduleResults\<close>), so the report has no module,
  the failed-module count is 0 and so is \<open>process.exitCode\<close>: a module with a failed
  assertion contributes 0, not 1.
\<close>

theorem proto_module_is_not_counted:
  "outcome (RunTests [module_p] example_config) =
     Fulfilled [\<lparr>testModuleId = ''__proto__'', assertionId = ''fails'',
                 result = False, skipped = False\<rparr>] \<and>
   aggregate [\<lparr>testModuleId = ''__proto__'', assertionId = ''fails'',
               result = False, skipped = False\<rparr>] = Inr (0, []) \<and>
   ending (jester (single_file_host ''p.js'' module_p) example_config) = ExitCode 0"
  by (simp add: run_simps aggregate_simps walk_simps jester_def report_def
        single_file_host_def example_host_def example_config_def exports_of_def
        module_p_def violated_def)

subsection \<open>Discovery\<close>

text \<open>
  What a failure does to the walk of a directory, for any listing. A file that fails to
  load is logged and passed over. A failed \<open>stat\<close> of any entry rejects the walk. A
  subdirectory that cannot be listed rejects the walk as well, through
  \<open>functionFinished\<close>, once the loop is over.
\<close>

lemma failed_import_is_skipped:
  assumes "last (split_on CHR ''.'' eachEntry) = ''js''"
  shows "for_entries dir excl ((eachEntry, File (LoadFails err)) # rest) functionFinished st =
           for_entries dir excl rest functionFinished
             (st\<lparr>trace := trace st @
                  [Stat (join dir eachEntry),
                   Debug (''Found file: '' @ join dir eachEntry),
                   Import (import_specifier (join dir eachEntry)),
                   Error (Text (''Error importing: '' @ join dir eachEntry @ '': '' @ error_text err)),
                   Error (Text ''Skipping...'')]\<rparr>)"
  using assms by (simp add: GetEntryStats_def import_entry_def emit_def Let_def)

lemma all_finished_Some: "Some err \<in> set rs \<Longrightarrow> all_finished rs \<noteq> None"
  by (induction rs rule: all_finished.induct) auto

lemma parked_rejection_surfaces:
  "Some err \<in> set functionFinished \<Longrightarrow> fst (for_entries dir excl entries functionFinished st) \<noteq> None"
proof (induction entries arbitrary: functionFinished st)
  case Nil
  then show ?case by (simp add: all_finished_Some)
next
  case (Cons e entries)
  obtain n nd where e: "e = (n, nd)" by (cases e)
  show ?case
  proof (cases nd)
    case (File ld)
    with e Cons show ?thesis by (simp add: GetEntryStats_def Let_def)
  next
    case (Directory l)
    with e Cons show ?thesis
      by (auto simp: GetEntryStats_def Let_def split: prod.splits)
  next
    case (Unstatable err')
    with e show ?thesis by (simp add: GetEntryStats_def Let_def)
  qed
qed

lemma failed_stat_rejects_walk:
  "(n, Unstatable err) \<in> set entries \<Longrightarrow> fst (for_entries dir excl entries functionFinished st) \<noteq> None"
proof (induction entries arbitrary: functionFinished st)
  case Nil
  then show ?case by simp
next
  case (Cons e entries)
  obtain n' nd where e: "e = (n', nd)" by (cases e)
  show ?case
  proof (cases nd)
    case (File ld)
    with e Cons show ?thesis by (auto simp: GetEntryStats_def Let_def)
  next
    case (Directory l)
    with e Cons show ?thesis
      by (auto simp: GetEntryStats_def Let_def split: prod.splits)
  next
    case (Unstatable err')
    with e show ?thesis by (simp add: GetEntryStats_def Let_def)
  qed
qed

lemma failed_listing_rejects_walk:
  assumes "(n, Directory (Unreadable err)) \<in> set entries" and "join dir n \<notin> set excl"
  shows "fst (for_entries dir excl entries functionFinished st) \<noteq> None"
  using assms
proof (induction entries arbitrary: functionFinished st)
  case Nil
  then show ?case by simp
next
  case (Cons e entries)
  obtain n' nd where e: "e = (n', nd)" by (cases e)
  show ?case
  proof (cases "e = (n, Directory (Unreadable err))")
    case True
    have "fst (for_entries dir excl entries (functionFinished @ [Some err]) st') \<noteq> None" for st'
      by (rule parked_rejection_surfaces [of err]) simp
    with True Cons.prems(2) show ?thesis
      by (simp add: GetEntryStats_def FindTestModules.simps GetEntries_def Let_def)
  next
    case False
    with Cons.prems have rest: "(n, Directory (Unreadable err)) \<in> set entries" by simp
    show ?thesis
    proof (cases nd)
      case (File ld)
      with e Cons.IH [OF rest Cons.prems(2)] show ?thesis
        by (auto simp: GetEntryStats_def Let_def)
    next
      case (Directory l)
      with e Cons.IH [OF rest Cons.prems(2)] show ?thesis
        by (auto simp: GetEntryStats_def Let_def split: prod.splits)
    next
      case (Unstatable err')
      with e show ?thesis by (simp add: GetEntryStats_def Let_def)
    qed
  qed
qed

text \<open>
  Claim C4, at two inputs where the program departs from it. In the first directory
  \<open>stat\<close> fails for the second of three entries: the walk rejects on the spot, nothing is
  logged for the entry, the third entry is never examined, and \<open>jester\<close> ends in
  \<open>process.exit(-1)\<close>. In the second directory \<open>readdir\<close> fails for a subdirectory, the
  last entry: the rejection surfaces at the final \<open>Promise.all\<close>, the walk of the root
  rejects although two modules were found, and \<open>jester\<close> ends in \<open>process.exit(-1)\<close> as
  well. In both, the failure of one entry inside the tree fails discovery as a whole.
\<close>

theorem entry_errors_abort_discovery:
  "FindTestModules ''/proj/tests'' [] dangling_tree \<lparr>testModules = [], trace = []\<rparr> =
     (Some (Thrown SystemError ''ENOENT: no such file or directory''),
      \<lparr>testModules = [module_a],
       trace = [Debug ''Looking in: /proj/tests'', Readdir ''/proj/tests'',
                Stat ''/proj/tests/a.js'', Debug ''Found file: /proj/tests/a.js'',
                Import ''/proj/tests/a.js'', Debug ''Found module: a.js'',
                Stat ''/proj/tests/dangling'']\<rparr>) \<and>
   ending (jester (example_host\<lparr>readdir_of := (\<lambda>p. dangling_tree)\<rparr>) example_config) = Exit (- 1) \<and>
   FindTestModules ''/proj/tests'' [] locked_tree \<lparr>testModules = [], trace = []\<rparr> =
     (Some (Thrown SystemError ''EACCES: permission denied''),
      \<lparr>testModules = [module_a, module_b],
       trace = [Debug ''Looking in: /proj/tests'', Readdir ''/proj/tests'',
                Stat ''/proj/tests/a.js'', Debug ''Found file: /proj/tests/a.js'',
                Import ''/proj/tests/a.js'', Debug ''Found module: a.js'',
                Stat ''/proj/tests/b.js'', Debug ''Found file: /proj/tests/b.js'',
                Import ''/proj/tests/b.js'', Debug ''Found module: b.js'',
                Stat ''/proj/tests/locked'', Debug ''Looking in: /proj/tests/locked'',
                Readdir ''/proj/tests/locked'']\<rparr>) \<and>
   ending (jester (example_host\<lparr>readdir_of := (\<lambda>p. locked_tree)\<rparr>) example_config) = Exit (- 1)"
  by (simp add: walk_simps jester_def dangling_tree_def locked_tree_def
        example_host_def example_config_def exports_of_def module_a_def module_b_def)

text \<open>
  Claim C5 as stated fails for a record whose \<open>assertions\<close> export is an empty mapping:
  \<open>{}\<close> is truthy, so the record is pushed.
\<close>

theorem empty_assertions_accepted:
  "exported_assertions empty_exports = Some [] \<and>
   testModules (snd (FindTestModules ''/proj/tests'' []
                       (Entries [(''empty.js'', File (Loaded empty_exports))])
                       \<lparr>testModules = [], trace = []\<rparr>)) =
     [\<lparr>id' = ''empty.js'', assertions = [], setUp = NoOp, tearDown = NoOp\<rparr>]"
  by (simp add: walk_simps Let_def empty_exports_def)

text \<open>
  Claim C5, amended. For a file entry whose name ends in \<open>.js\<close> and that loads, the loop
  pushes the record, with its defaults filled, exactly when it exports \<open>assertions\<close>
  (an empty mapping included); a record without that export leaves \<open>testModules\<close> as it
  was, and in neither case is an error logged. The loop then goes on with the next entry.
\<close>

theorem accepted_iff_assertions_exported:
  assumes "last (split_on CHR ''.'' eachEntry) = ''js''"
  shows "for_entries dir excl ((eachEntry, File (Loaded x)) # rest) functionFinished st =
           for_entries dir excl rest functionFinished
             (case exported_assertions x of
                None \<Rightarrow>
                  st\<lparr>trace := trace st @
                       [Stat (join dir eachEntry),
                        Debug (''Found file: '' @ join dir eachEntry),
                        Import (import_specifier (join dir eachEntry))]\<rparr>
              | Some asserts \<Rightarrow>
                  st\<lparr>trace := trace st @
                       [Stat (join dir eachEntry),
                        Debug (''Found file: '' @ join dir eachEntry),
                        Import (import_specifier (join dir eachEntry)),
                        Debug (''Found module: '' @ id' (fill_defaults eachEntry x asserts))],
                     testModules := testModules st @ [fill_defaults eachEntry x asserts]\<rparr>)"
  using assms
  by (cases "exported_assertions x")
     (simp_all add: GetEntryStats_def import_entry_def emit_def Let_def)


theorem accepted_iff_assertions_exported_witness:
  "last (split_on CHR ''.'' ''empty.js'') = ''js'' \<and>
   for_entries ''/proj/tests'' [] [(''empty.js'', File (Loaded empty_exports))] []
     \<lparr>testModules = [], trace = []\<rparr> =
   (None,
    \<lparr>testModules =
       [\<lparr>id' = ''empty.js'', assertions = [], setUp = NoOp, tearDown = NoOp\<rparr>],
     trace =
       [Stat ''/proj/tests/empty.js'', Debug ''Found file: /proj/tests/empty.js'',
        Import ''/proj/tests/empty.js'', Debug ''Found module: empty.js'']\<rparr>)"
proof -
  have js: "last (split_on CHR ''.'' ''empty.js'') = ''js''"
    by simp
  from accepted_iff_assertions_exported [OF js, of "''/proj/tests''" "[]" empty_exports "[]" "[]"
      "\<lparr>testModules = [], trace = []\<rparr>"] js
  show ?thesis
    by (simp add: empty_exports_def fill_defaults_def import_specifier_def join_def normalize_def)
qed

text \<open>The walk never looks below an excluded directory entry.\<close>

lemma walk_prune:
  "\<forall>st. FindTestModules dir excl (prune dir excl l) st = FindTestModules dir excl l st"
  "\<forall>ff st. for_entries dir excl (prune_entries dir excl entries) ff st =
           for_entries dir excl entries ff st"
proof (induction dir excl l and dir excl entries rule: prune_prune_entries.induct)
  case (1 dir excl err)
  show ?case by simp
next
  case (2 dir excl entries)
  then show ?case
    by (simp add: FindTestModules.simps GetEntries_def)
next
  case (3 dir excl)
  show ?case by simp
next
  case (4 dir excl eachEntry l rest)
  then show ?case
    by (simp add: GetEntryStats_def Let_def split: prod.splits)
next
  case (5 dir excl eachEntry ld rest)
  then show ?case
    by (simp add: GetEntryStats_def Let_def)
next
  case (6 dir excl eachEntry err rest)
  then show ?case
    by (simp add: GetEntryStats_def Let_def)
qed

text \<open>
  Claim C6. Two directory trees that differ only below directory entries whose full path
  is in \<open>excludeDirs\<close> give the same walk: the same modules, the same rejection or none,
  and the same trace, which lists every \<open>readdir\<close>, \<open>stat\<close> and \<open>import\<close> the walk issues
  and every line it logs. So nothing below such an entry is listed, examined or loaded,
  and no error is logged for it, whatever lies there.
\<close>

theorem excluded_directories_are_not_visited:
  assumes "prune dir excl l = prune dir excl l'"
  shows "FindTestModules dir excl l st = FindTestModules dir excl l' st"
proof -
  have "FindTestModules dir excl l st = FindTestModules dir excl (prune dir excl l) st"
    by (simp add: walk_prune(1))
  also have "\<dots> = FindTestModules dir excl (prune dir excl l') st"
    by (simp add: assms)
  also have "\<dots> = FindTestModules dir excl l' st"
    by (simp add: walk_prune(1))
  finally show ?thesis .
qed


theorem excluded_directories_are_not_visited_witness:
  "prune ''/proj/tests'' [''/proj/tests/fixtures''] example_tree =
     prune ''/proj/tests'' [''/proj/tests/fixtures''] other_fixtures \<and>
   example_tree \<noteq> other_fixtures \<and>
   FindTestModules ''/proj/tests'' [''/proj/tests/fixtures''] example_tree
       \<lparr>testModules = [], trace = []\<rparr> =
     FindTestModules ''/proj/tests'' [''/proj/tests/fixtures''] other_fixtures
       \<lparr>testModules = [], trace = []\<rparr>"
proof -
  have same: "prune ''/proj/tests'' [''/proj/tests/fixtures''] example_tree =
     prune ''/proj/tests'' [''/proj/tests/fixtures''] other_fixtures"
    by (simp add: example_tree_def other_fixtures_def join_def normalize_def)
  have differ: "example_tree \<noteq> other_fixtures"
    by (simp add: example_tree_def other_fixtures_def)
  from excluded_directories_are_not_visited [OF same, of "\<lparr>testModules = [], trace = []\<rparr>"]
    same differ
  show ?thesis
    by simp
qed

subsection \<open>Coverage\<close>

text \<open>
  Once recording has started, coverage cannot change how the run ends: without a
  snapshot \<open>WriteCoverageResults\<close> logs and returns, and two hosts that agree on the
  test directories and on the start of coverage give the same ending and the same test
  results, whatever the snapshot, the coverage directory and the write do.
\<close>

lemma no_snapshot_no_write:
  "post_takePreciseCoverage h = Inl err \<Longrightarrow>
   WriteCoverageResults h dir clr =
     \<lparr>written = [Post ''Profiler.takePreciseCoverage'', Error (Caught err)], cleared = None\<rparr>"
  by (simp add: WriteCoverageResults_def)

lemma ending_report: "ending (report evs n run bg rs) = ending (report evs' n' run' bg' rs)"
  by (simp add: report_def split: sum.splits prod.splits)

lemma tests_report: "tests (report evs n run bg rs) = Some run"
  by (simp add: report_def split: sum.splits prod.splits)

lemma snapshot_and_clear_never_change_ending:
  assumes "readdir_of h' = readdir_of h" and "cwd h' = cwd h" and "StartCoverage h' = StartCoverage h"
  shows "ending (jester h' config) = ending (jester h config) \<and>
         tests (jester h' config) = tests (jester h config)"
proof -
  let ?d = "discover (readdir_of h) (cwd h) (excludeDirs config) (testDirs config)
              \<lparr>testModules = [], trace = []\<rparr>"
  obtain r st where d: "?d = (r, st)" by (cases ?d)
  obtain r' evs where s: "StartCoverage h = (r', evs)" by (cases "StartCoverage h")
  show ?thesis
  proof (cases "outcome (RunTests (testModules st) config)")
    case (Fulfilled rs)
    with d s assms show ?thesis
      by (cases r; cases r') (auto simp: jester_def Let_def tests_report intro: ending_report)
  next
    case Pending
    with d s assms show ?thesis
      by (cases r; cases r') (simp_all add: jester_def Let_def)
  next
    case (Rejected e)
    with d s assms show ?thesis
      by (cases r; cases r') (simp_all add: jester_def Let_def)
  qed
qed

text \<open>
  Claim C8, at the input where the program departs from it. Coverage is enabled and the
  profiler answers \<open>Profiler.enable\<close> with an error. \<open>StartCoverage\<close> rejects, and
  \<open>jester\<close> awaits it outside any \<open>try\<close>: the promise of \<open>jester()\<close> is rejected, with
  nothing logged, before a single assertion has run; no report is written and
  \<open>process.exitCode\<close> is never set. On the same host with a working profiler the run
  ends with exit code 0, so the coverage failure did change the outcome of the run.
\<close>

theorem coverage_start_failure_is_uncaught:
  "jester no_profiler_host coverage_config =
     \<lparr>ending = Uncaught (Thrown PlainError ''Profiler.enable failed''),
      main = [Debug ''Looking in: /proj/tests'', Readdir ''/proj/tests'',
              Stat ''/proj/tests/a.js'', Debug ''Found file: /proj/tests/a.js'',
              Import ''/proj/tests/a.js'', Debug ''Found module: a.js'',
              Connect, Post ''Profiler.enable''],
      tests = None, clearing = None\<rparr> \<and>
   ending (jester (single_file_host ''a.js'' module_a) coverage_config) = ExitCode 0"
  by (simp add: jester_def report_def no_profiler_host_def host_simps coverage_simps walk_simps
        run_simps aggregate_simps module_a_def passing_def marked_skip_def)

text \<open>
  The snapshot write, for every host. In a run with coverage enabled that gets as far as
  \<open>WriteCoverageResults\<close> and obtains a snapshot, the program issues exactly one
  \<open>writeFile\<close>, of the snapshot, to \<open>coverage-<Date.now()>.json\<close> in the coverage directory,
  and starts the clear operation if and only if \<open>clearCoverage\<close> is set.
\<close>

lemma filter_report:
  assumes "\<And>ev. is_report ev \<Longrightarrow> \<not> P ev"
  shows "filter P (main (report evs n run bg rs)) = filter P evs"
proof (cases "aggregate rs")
  case (Inl err)
  then show ?thesis by (simp add: report_def)
next
  case (Inr p)
  obtain k lines where p: "p = (k, lines)" by (cases p)
  from Inr p obtain obj where "report_modules (Object_entries obj) 0 [] = (k, lines)"
    by (auto simp: aggregate_def split: sum.splits)
  then have "lines = snd (report_modules (Object_entries obj) 0 [])"
    by simp
  with filter_report_modules [of P "Object_entries obj" 0 "[]", OF assms]
  have "filter P lines = []" by simp
  with Inr p show ?thesis
    by (simp add: report_def assms)
qed

lemma jester_fulfilled:
  assumes walk: "\<And>ev. is_walk_event ev \<Longrightarrow> \<not> P ev"
    and rep: "\<And>ev. is_report ev \<Longrightarrow> \<not> P ev"
    and session: "\<And>s. \<not> P (Post s)" "\<not> P Connect" "\<not> P Disconnect"
    and run: "tests (jester h config) = Some run" "outcome run = Fulfilled rs"
    and cov: "coverageEnabled config"
  shows "filter P (main (jester h config)) =
           filter P (filter (\<lambda>ev. \<forall>s. ev \<noteq> Post s)
             (written (WriteCoverageResults h (coverageDir config) (clearCoverage config))))"
    and "clearing (jester h config) =
           cleared (WriteCoverageResults h (coverageDir config) (clearCoverage config))"
proof -
  let ?d = "discover (readdir_of h) (cwd h) (excludeDirs config) (testDirs config)
              \<lparr>testModules = [], trace = []\<rparr>"
  let ?w = "WriteCoverageResults h (coverageDir config) (clearCoverage config)"
  obtain r st where d: "?d = (r, st)" by (cases ?d)
  obtain r' evs where s: "StartCoverage h = (r', evs)" by (cases "StartCoverage h")
  from run(1) have nx: "\<not> exitAfter config"
    by (auto simp: jester_def)
  from run(1) nx d have r: "r = None"
    by (cases r) (auto simp: jester_def)
  from run(1) nx d r s cov have r': "r' = None"
    by (cases r') (auto simp: jester_def)
  from run(1) nx d r s r' cov have same: "run = RunTests (testModules st) config"
    by (cases "outcome (RunTests (testModules st) config)") (auto simp: jester_def Let_def report_def split: sum.splits)
  from nx d r s r' cov run(2) same have j: "jester h config =
      report (trace st @ [Connect] @ evs @ written ?w @ [Disconnect])
        (length (testModules st)) run (cleared ?w) rs"
    by (simp add: jester_def Let_def)
  from filter_discover [of P "readdir_of h" "cwd h" "excludeDirs config" "testDirs config"
      "\<lparr>testModules = [], trace = []\<rparr>", OF walk] d
  have t: "filter P (trace st) = []" by simp
  from filter_StartCoverage [of P h, OF session(1)] s have e: "filter P evs = []" by simp
  have "filter P (written ?w) = filter P (filter (\<lambda>ev. \<forall>s. ev \<noteq> Post s) (written ?w))"
    by (auto simp: filter_filter intro!: filter_cong dest: session(1) [THEN notE, rotated])
  with j t e show "filter P (main (jester h config)) =
      filter P (filter (\<lambda>ev. \<forall>s. ev \<noteq> Post s) (written ?w))"
    by (simp add: filter_report [OF rep] session)
  from j show "clearing (jester h config) = cleared ?w"
    by (simp add: report_def split: sum.splits prod.splits)
qed

lemma report_blind_WriteFile: "is_report ev \<Longrightarrow> \<not> is_WriteFile ev"
  by (cases ev) simp_all

lemma one_snapshot_write:
  assumes "coverageEnabled config"
    and "tests (jester h config) = Some run"
    and "outcome run = Fulfilled rs"
    and "post_takePreciseCoverage h = Inr data"
  shows "filter is_WriteFile (main (jester h config)) =
           [WriteFile (coverageDir config @ pathSep @ ''coverage-'' @ string_of_nat (now h) @ ''.json'')
              data (writeFile_error h = None)] \<and>
         clearing (jester h config) =
           (if clearCoverage config then Some (ClearCoverageDirectory h (coverageDir config))
            else None)"
proof -
  let ?dir = "coverageDir config"
  from jester_fulfilled(1) [of is_WriteFile h config run rs,
      OF walk_blind_WriteFile report_blind_WriteFile _ _ _ assms(2,3,1)]
  have "filter is_WriteFile (main (jester h config)) =
          filter is_WriteFile (filter (\<lambda>ev. \<forall>s. ev \<noteq> Post s)
            (written (WriteCoverageResults h ?dir (clearCoverage config))))"
    by simp
  with assms(4) have one: "filter is_WriteFile (main (jester h config)) =
      [WriteFile (?dir @ pathSep @ ''coverage-'' @ string_of_nat (now h) @ ''.json'')
         data (writeFile_error h = None)]"
    by (cases "writeFile_error h") (simp_all add: WriteCoverageResults_def Let_def)
  from jester_fulfilled(2) [of is_WriteFile h config run rs,
      OF walk_blind_WriteFile report_blind_WriteFile _ _ _ assms(2,3,1)]
  have "clearing (jester h config) = cleared (WriteCoverageResults h ?dir (clearCoverage config))"
    by simp
  with assms(4) have "clearing (jester h config) =
      (if clearCoverage config then Some (ClearCoverageDirectory h ?dir) else None)"
    by (simp add: WriteCoverageResults_def Let_def)
  with one show ?thesis
    by simp
qed

text \<open>
  The clear operation, for every host that provides no global \<open>logger\<close>: it never gets as
  far as an \<open>unlink\<close>. It returns normally only when the directory can be listed and holds
  nothing but the sentinel; in every other case it throws a \<open>ReferenceError\<close>, from the
  \<open>catch\<close> clause of the failed \<open>readdir\<close> or at the first entry that it was to delete.
\<close>

lemma clear_entries_without_logger:
  assumes "\<not> logger_is_global h"
  shows "snd (clear_entries h dir entries) = [] \<and>
         (fst (clear_entries h dir entries) = None) = (set entries \<subseteq> {''.gitignore''})"
  using assms
  by (induction entries) (auto simp: Let_def)

lemma clear_without_logger:
  assumes "\<not> logger_is_global h"
  shows "unlinks (snd (ClearCoverageDirectory h dir)) = [] \<and>
         (fst (ClearCoverageDirectory h dir) = None) =
           (\<exists>entries. coverage_entries h = Inr entries \<and> set entries \<subseteq> {''.gitignore''})"
proof (cases "coverage_entries h")
  case (Inl err)
  with assms show ?thesis
    by (simp add: ClearCoverageDirectory_def)
next
  case (Inr entries)
  with clear_entries_without_logger [OF assms, of dir entries] show ?thesis
    by (cases "clear_entries h dir entries") (simp add: ClearCoverageDirectory_def)
qed

text \<open>
  Claim C9, at the input where the program departs from it. Coverage is enabled with the
  clear operation, a snapshot is obtained, and the coverage directory holds the sentinel
  and two old snapshots; no deletion and no write would fail. The snapshot is written,
  once, to \<open>coverage-1700000000123.json\<close>. The clear operation lists the directory, passes
  over \<open>.gitignore\<close> and, at the first old snapshot, evaluates \<open>logger.Debug\<close> with no
  \<open>logger\<close> in scope: it throws a \<open>ReferenceError\<close> before the first \<open>unlink\<close>, and both old
  snapshots stay where they were. Its promise was dropped, so \<open>jester\<close> goes on to the
  report and ends with exit code 0.
\<close>

theorem clear_deletes_nothing:
  "coverageEnabled coverage_config \<and> clearCoverage coverage_config \<and>
   post_takePreciseCoverage (single_file_host ''a.js'' module_a) = Inr ''{}'' \<and>
   coverage_entries (single_file_host ''a.js'' module_a) =
     Inr [''.gitignore'', ''coverage-1.json'', ''coverage-2.json''] \<and>
   unlink_error (single_file_host ''a.js'' module_a) ''/proj/coverage/coverage-1.json'' = None \<and>
   unlink_error (single_file_host ''a.js'' module_a) ''/proj/coverage/coverage-2.json'' = None \<and>
   \<not> logger_is_global (single_file_host ''a.js'' module_a) \<and>
   filter is_WriteFile (main (jester (single_file_host ''a.js'' module_a) coverage_config)) =
     [WriteFile ''/proj/coverage/coverage-1700000000123.json'' ''{}'' True] \<and>
   clearing (jester (single_file_host ''a.js'' module_a) coverage_config) =
     Some (Some (Thrown ReferenceError ''logger is not defined''), [Readdir ''/proj/coverage'']) \<and>
   unlinks (snd (ClearCoverageDirectory (single_file_host ''a.js'' module_a)
                   (coverageDir coverage_config))) = [] \<and>
   ending (jester (single_file_host ''a.js'' module_a) coverage_config) = ExitCode 0"
  by (simp add: jester_def report_def host_simps coverage_simps walk_simps
        run_simps aggregate_simps module_a_def passing_def marked_skip_def)

end
